theory Spec2Isabelle
  imports Complex_Main "HOL-Library.Word"
begin

section \<open>Numeric types of the sketch\<close>

text \<open>
  The program is \<^verbatim>\<open>src/main.cpp\<close>, an Arduino sketch for the ESP8266. On that target
  \<^verbatim>\<open>unsigned int\<close> and \<^verbatim>\<open>unsigned long\<close> are 32 bits wide (modelled as \<open>32 word\<close>,
  so that \<open>-\<close> and \<open>*\<close> wrap around) and \<^verbatim>\<open>long\<close> is a 32-bit signed integer
  (modelled as an \<open>int\<close> in that range).

  A \<^verbatim>\<open>double\<close> is an IEEE 754 binary64 value: a finite number, one of the two
  infinities, or NaN. A finite value is modelled by the real number it denotes (the two
  zeros are one value, which no comparison and no cast of the sketch can tell apart).
  Every arithmetic operation computes the exact result and rounds it to binary64, to the
  nearest representable value and to the even significand on a tie.
\<close>

type_synonym u32 = "32 word"

datatype double = Finite real | PInf | MInf | NaN

text \<open>The power \<open>2^k\<close> for an integer \<open>k\<close> of either sign.\<close>

definition pow2 :: "int \<Rightarrow> real" where
  "pow2 k = (if 0 \<le> k then 2 ^ nat k else inverse (2 ^ nat (- k)))"

text \<open>Rounding to the nearest integer, to the even one on a tie.\<close>

definition round_even :: "real \<Rightarrow> int" where
  "round_even x =
     (if x - of_int \<lfloor>x\<rfloor> < 1 / 2 then \<lfloor>x\<rfloor>
      else if 1 / 2 < x - of_int \<lfloor>x\<rfloor> then \<lfloor>x\<rfloor> + 1
      else if even \<lfloor>x\<rfloor> then \<lfloor>x\<rfloor> else \<lfloor>x\<rfloor> + 1)"

text \<open>
  The binary exponent of a number that is not zero: \<open>2^(binade x) \<le> |x| < 2^(binade x + 1)\<close>
  (lemmas \<open>binade_bounds\<close> and \<open>binade_eq\<close> below).
\<close>

definition binade :: "real \<Rightarrow> int" where
  "binade x = \<lfloor>log 2 \<bar>x\<bar>\<rfloor>"

text \<open>
  Rounding of a real number to binary64. The significand has 53 bits, so that the spacing
  of the representable values around \<open>x\<close> is \<open>2^(binade x - 52)\<close>, and \<open>2^(-1074)\<close>
  for the subnormal numbers below \<open>2^(-1022)\<close>. A result of magnitude \<open>2^1024\<close> or
  more is an infinity.
\<close>

definition round_double :: "real \<Rightarrow> double" where
  "round_double x =
     (if x = 0 then Finite 0
      else if pow2 1024 \<le> \<bar>of_int (round_even (x / pow2 (max (binade x) (- 1022) - 52)))
                              * pow2 (max (binade x) (- 1022) - 52)\<bar>
      then (if 0 < x then PInf else MInf)
      else Finite (of_int (round_even (x / pow2 (max (binade x) (- 1022) - 52)))
                   * pow2 (max (binade x) (- 1022) - 52)))"

fun d_neg :: "double \<Rightarrow> double" where
  "d_neg (Finite x) = Finite (- x)"
| "d_neg PInf = MInf"
| "d_neg MInf = PInf"
| "d_neg NaN = NaN"

fun d_add :: "double \<Rightarrow> double \<Rightarrow> double" where
  "d_add (Finite x) (Finite y) = round_double (x + y)"
| "d_add NaN _ = NaN"
| "d_add _ NaN = NaN"
| "d_add PInf MInf = NaN"
| "d_add MInf PInf = NaN"
| "d_add PInf _ = PInf"
| "d_add MInf _ = MInf"
| "d_add _ PInf = PInf"
| "d_add _ MInf = MInf"

definition d_sub :: "double \<Rightarrow> double \<Rightarrow> double" where
  "d_sub a b = d_add a (d_neg b)"

text \<open>The sign of a value that is not NaN: \<open>-1\<close>, \<open>0\<close> or \<open>1\<close>.\<close>

fun d_sgn :: "double \<Rightarrow> int" where
  "d_sgn (Finite x) = (if x = 0 then 0 else if 0 < x then 1 else - 1)"
| "d_sgn PInf = 1"
| "d_sgn MInf = - 1"
| "d_sgn NaN = 0"

definition d_signed_inf :: "int \<Rightarrow> double" where
  "d_signed_inf k = (if k = 0 then NaN else if 0 < k then PInf else MInf)"

fun d_mul :: "double \<Rightarrow> double \<Rightarrow> double" where
  "d_mul (Finite x) (Finite y) = round_double (x * y)"
| "d_mul NaN _ = NaN"
| "d_mul _ NaN = NaN"
| "d_mul a b = d_signed_inf (d_sgn a * d_sgn b)"

text \<open>
  Division. A zero divisor is the positive zero (in the sketch the divisor is always the
  conversion of an integer): a positive number over zero is \<open>+inf\<close>, zero over zero is NaN.
\<close>

fun d_div :: "double \<Rightarrow> double \<Rightarrow> double" where
  "d_div NaN _ = NaN"
| "d_div _ NaN = NaN"
| "d_div (Finite x) (Finite y) =
     (if y = 0 then d_signed_inf (d_sgn (Finite x)) else round_double (x / y))"
| "d_div (Finite x) _ = Finite 0"
| "d_div a (Finite y) = d_signed_inf (d_sgn a * (if y < 0 then - 1 else 1))"
| "d_div _ _ = NaN"

text \<open>Comparisons: every comparison with NaN is false, except \<open>!=\<close>, which is true.\<close>

fun d_lt :: "double \<Rightarrow> double \<Rightarrow> bool" where
  "d_lt NaN _ = False"
| "d_lt _ NaN = False"
| "d_lt (Finite x) (Finite y) = (x < y)"
| "d_lt MInf b = (b \<noteq> MInf)"
| "d_lt a PInf = (a \<noteq> PInf)"
| "d_lt _ _ = False"

definition d_gt :: "double \<Rightarrow> double \<Rightarrow> bool" where
  "d_gt a b = d_lt b a"

definition d_eq :: "double \<Rightarrow> double \<Rightarrow> bool" where
  "d_eq a b = (a \<noteq> NaN \<and> a = b)"

definition d_ne :: "double \<Rightarrow> double \<Rightarrow> bool" where
  "d_ne a b = (\<not> d_eq a b)"

text \<open>Arduino's macro \<^verbatim>\<open>abs(x) ((x)>0?(x):-(x))\<close>.\<close>

definition d_abs :: "double \<Rightarrow> double" where
  "d_abs x = (if d_gt x (Finite 0) then x else d_neg x)"

text \<open>
  The conversions of a 32-bit integer to \<^verbatim>\<open>double\<close> are exact: every such integer is
  representable.
\<close>

definition double_of_u32 :: "u32 \<Rightarrow> double" where
  "double_of_u32 w = Finite (real (unat w))"

definition double_of_long :: "int \<Rightarrow> double" where
  "double_of_long i = Finite (real_of_int i)"

section \<open>Configuration, devices and program state\<close>

text \<open>
  What the sources at hand leave open is a record that every function takes as a
  parameter: the macros of \<^verbatim>\<open>Config.h\<close>, which is not among them, and the integer that
  the cast \<^verbatim>\<open>(long)x\<close> returns for an \<open>x\<close> whose truncation does not fit the type (an
  infinity, NaN, or a number out of range), which C++ leaves undefined and the target's
  conversion routine decides.
\<close>

record config =
  DEFAULT_SECONDS_TO_CLOSE :: u32
  DEFAULT_SECONDS_TO_OPEN :: u32
  SERVO_RESET_REQUIRED :: bool
  SERVO_RESET_EVERY_SECONDS :: u32
  SERVO_RESET_DELAY_MILLISECONDS :: nat
  SERVO_STOP_SIGNAL_REQUIRED :: bool
  SERVO_STOP_DUTYCYCLE :: int
  SERVO_STOP_SIGNAL_MILLISECONDS :: nat
  LONG_OF_UNREPRESENTABLE :: "double \<Rightarrow> 32 word"

text \<open>\<^verbatim>\<open>const unsigned int millisPerServoReset = (SERVO_RESET_EVERY_SECONDS * 1000);\<close>\<close>

definition millisPerServoReset :: "config \<Rightarrow> u32" where
  "millisPerServoReset c = SERVO_RESET_EVERY_SECONDS c * 1000"

text \<open>
  The cast \<^verbatim>\<open>(long)x\<close> truncates towards zero. Where the truncated value does not fit,
  the program goes on with the integer that the target returns.
\<close>

definition trunc_real :: "real \<Rightarrow> int" where
  "trunc_real x = (if 0 \<le> x then \<lfloor>x\<rfloor> else \<lceil>x\<rceil>)"

definition long_of_double :: "config \<Rightarrow> double \<Rightarrow> int" where
  "long_of_double c d =
     (case d of
        Finite x \<Rightarrow>
          if - 2147483649 < x \<and> x < 2147483648 then trunc_real x
          else sint (LONG_OF_UNREPRESENTABLE c d)
      | _ \<Rightarrow> sint (LONG_OF_UNREPRESENTABLE c d))"

datatype pin = LED_BUILTIN | GPIO nat

datatype level = LOW | HIGH

text \<open>The four values kept in EEPROM, under the names of \<^verbatim>\<open>eepromAddresses\<close>.\<close>

record eeprom =
  ee_initialized :: bool
  ee_secondsToClose :: u32
  ee_secondsToOpen :: u32
  ee_currentPosition :: double

datatype eeprom_put =
    PutInitialized bool
  | PutSecondsToClose u32
  | PutSecondsToOpen u32
  | PutCurrentPosition double

text \<open>
  Every call to a device is recorded, in order, in a trace: the servo, the EEPROM, the
  pins, \<^verbatim>\<open>delay\<close> and the serial port.
\<close>

datatype event =
    ServoAttach nat
  | ServoWrite int
  | ServoDetach
  | Delay nat
  | EepromPut eeprom_put
  | EepromCommit
  | DigitalWrite pin level
  | SerialText string
  | SerialDouble double
  | SerialInt int

definition servoPin :: nat where
  "servoPin = 2"

record blinds =
  secondsToClose :: u32
  secondsToOpen :: u32
  milliesPerPercentClose :: u32
  millisPerPercentOpen :: u32
  startingPosition :: double
  currentPosition :: double
  desiredPosition :: double
  spinning :: bool
  direction :: int
  dutyCycle :: int
  previousMillis :: u32
  lastResetMillis :: u32
  interval :: int
  eeprom_buffer :: eeprom
  eeprom_flash :: eeprom
  trace :: "event list"

definition emit :: "event list \<Rightarrow> blinds \<Rightarrow> blinds" where
  "emit evs s = s\<lparr>trace := trace s @ evs\<rparr>"

text \<open>\<^verbatim>\<open>EEPROM.put\<close> writes the RAM buffer; \<^verbatim>\<open>EEPROM.commit\<close> copies the buffer to flash.\<close>

fun eeprom_store :: "eeprom_put \<Rightarrow> eeprom \<Rightarrow> eeprom" where
  "eeprom_store (PutInitialized b) e = e\<lparr>ee_initialized := b\<rparr>"
| "eeprom_store (PutSecondsToClose w) e = e\<lparr>ee_secondsToClose := w\<rparr>"
| "eeprom_store (PutSecondsToOpen w) e = e\<lparr>ee_secondsToOpen := w\<rparr>"
| "eeprom_store (PutCurrentPosition d) e = e\<lparr>ee_currentPosition := d\<rparr>"

definition EEPROM_put :: "eeprom_put \<Rightarrow> blinds \<Rightarrow> blinds" where
  "EEPROM_put p s = emit [EepromPut p] (s\<lparr>eeprom_buffer := eeprom_store p (eeprom_buffer s)\<rparr>)"

definition EEPROM_commit :: "blinds \<Rightarrow> blinds" where
  "EEPROM_commit s = emit [EepromCommit] (s\<lparr>eeprom_flash := eeprom_buffer s\<rparr>)"

section \<open>The functions of the sketch\<close>

text \<open>
  The globals as their initialisers leave them, over a given content of the flash.
  \<^verbatim>\<open>direction\<close> has no initialiser: a global \<^verbatim>\<open>int\<close> starts at zero.
\<close>

definition initial_globals :: "config \<Rightarrow> eeprom \<Rightarrow> blinds" where
  "initial_globals c flash =
     \<lparr> secondsToClose = DEFAULT_SECONDS_TO_CLOSE c,
       secondsToOpen = DEFAULT_SECONDS_TO_OPEN c,
       milliesPerPercentClose = (DEFAULT_SECONDS_TO_CLOSE c * 1000) div 100,
       millisPerPercentOpen = (DEFAULT_SECONDS_TO_OPEN c * 1000) div 100,
       startingPosition = Finite 0,
       currentPosition = Finite 0,
       desiredPosition = Finite 0,
       spinning = False,
       direction = 0,
       dutyCycle = 90,
       previousMillis = 0,
       lastResetMillis = 0,
       interval = 0,
       eeprom_buffer = flash,
       eeprom_flash = flash,
       trace = [] \<rparr>"

text \<open>
  \<^verbatim>\<open>startSpinning(newPosition)\<close>, called at a moment when \<^verbatim>\<open>millis()\<close> returns
  \<open>currentMillis\<close>.
\<close>

definition startSpinning :: "config \<Rightarrow> u32 \<Rightarrow> blinds \<Rightarrow> double \<Rightarrow> blinds" where
  "startSpinning c currentMillis s0 newPosition =
    (let s1 = emit [DigitalWrite LED_BUILTIN LOW] s0 in
     if d_ne newPosition (desiredPosition s1) \<or> d_ne newPosition (currentPosition s1) then
       let s2 = (if spinning s1 then emit [ServoDetach] s1 else s1);
           s3 = s2\<lparr>desiredPosition := newPosition\<rparr>;
           s4 = emit [SerialText ''current position: '', SerialDouble (currentPosition s3),
                      SerialText ''desired position: '', SerialDouble (desiredPosition s3)] s3;
           millisPerPercent =
             (if d_gt (desiredPosition s4) (currentPosition s4)
              then millisPerPercentOpen s4 else milliesPerPercentClose s4);
           s5 = s4\<lparr>interval :=
                  long_of_double c
                    (d_mul (d_abs (d_sub (desiredPosition s4) (currentPosition s4)))
                           (double_of_u32 millisPerPercent))\<rparr>;
           s6 = emit [SerialText ''calculated interval: '', SerialInt (interval s5)] s5;
           s7 = s6\<lparr>dutyCycle := (if d_gt (desiredPosition s6) (currentPosition s6) then 0 else 180)\<rparr>;
           s8 = emit [ServoAttach servoPin, ServoWrite (dutyCycle s7)] s7;
           s9 = s8\<lparr>direction := (if d_gt (desiredPosition s8) (currentPosition s8) then 1 else - 1)\<rparr>;
           s10 = s9\<lparr>previousMillis := currentMillis\<rparr>;
           s11 = s10\<lparr>lastResetMillis := previousMillis s10\<rparr>;
           s12 = s11\<lparr>spinning := True\<rparr>;
           s13 = s12\<lparr>startingPosition := currentPosition s12\<rparr>;
           s14 = emit [SerialText ''calculated direction: '', SerialInt (direction s13)] s13
       in emit [DigitalWrite LED_BUILTIN HIGH] s14
     else emit [DigitalWrite LED_BUILTIN HIGH] s1)"

definition resetServo :: "config \<Rightarrow> blinds \<Rightarrow> blinds" where
  "resetServo c s =
     emit [SerialText ''detatching servo'', ServoDetach, Delay (SERVO_RESET_DELAY_MILLISECONDS c),
           SerialText ''re-attatching servo'', ServoAttach servoPin, ServoWrite (dutyCycle s)] s"

definition stopSpinning :: "config \<Rightarrow> blinds \<Rightarrow> blinds" where
  "stopSpinning c s0 =
    (let s1 = (if SERVO_STOP_SIGNAL_REQUIRED c
               then emit [ServoWrite (SERVO_STOP_DUTYCYCLE c), Delay (SERVO_STOP_SIGNAL_MILLISECONDS c)] s0
               else s0);
         s2 = emit [ServoDetach] s1;
         s3 = s2\<lparr>spinning := False\<rparr>;
         s4 = s3\<lparr>currentPosition := desiredPosition s3\<rparr>;
         s5 = EEPROM_put (PutCurrentPosition (currentPosition s4)) s4;
         s6 = EEPROM_commit s5
     in emit [SerialText ''finished spinning!'', DigitalWrite (GPIO 2) HIGH] s6)"

text \<open>
  The body of \<^verbatim>\<open>loop()\<close>, in the order of the source: the quotient
  \<^verbatim>\<open>percentCompleted\<close>, the position computed from it, the test that stops the spin, and
  the reset of the servo.
\<close>

definition percentCompleted :: "blinds \<Rightarrow> u32 \<Rightarrow> double" where
  "percentCompleted s currentMillis =
     d_div (double_of_u32 (currentMillis - previousMillis s)) (double_of_long (interval s))"

definition estimate :: "blinds \<Rightarrow> u32 \<Rightarrow> double" where
  "estimate s currentMillis =
     d_add (d_mul (percentCompleted s currentMillis)
                  (d_sub (desiredPosition s) (startingPosition s)))
           (startingPosition s)"

definition reached :: "blinds \<Rightarrow> u32 \<Rightarrow> bool" where
  "reached s currentMillis =
     (d_eq (estimate s currentMillis) (desiredPosition s)
      \<or> d_gt (percentCompleted s currentMillis) (Finite 1)
      \<or> d_lt (estimate s currentMillis) (Finite 0)
      \<or> d_gt (estimate s currentMillis) (Finite 100))"

definition loop :: "config \<Rightarrow> u32 \<Rightarrow> blinds \<Rightarrow> blinds" where
  "loop c currentMillis s0 =
    (if spinning s0 then
       let s1 = s0\<lparr>currentPosition := estimate s0 currentMillis\<rparr>;
           s2 = (if reached s0 currentMillis then stopSpinning c s1 else s1);
           spinningMillis = currentMillis - lastResetMillis s2
       in if SERVO_RESET_REQUIRED c \<and> spinning s2 \<and> millisPerServoReset c \<le> spinningMillis
          then (resetServo c s2)\<lparr>lastResetMillis := currentMillis\<rparr>
          else s2
     else s0)"

text \<open>
  The handlers of the web server: \<^verbatim>\<open>/set\<close> (its parameter may be missing), and
  \<^verbatim>\<open>/state\<close>, which answers 0, 1 or 2.
\<close>

definition handle_set :: "config \<Rightarrow> u32 \<Rightarrow> blinds \<Rightarrow> double option \<Rightarrow> blinds" where
  "handle_set c currentMillis s0 param =
    (let s1 = emit [DigitalWrite LED_BUILTIN LOW] s0;
         s2 = (case param of None \<Rightarrow> s1
               | Some newPosition \<Rightarrow> startSpinning c currentMillis s1 newPosition)
     in emit [DigitalWrite LED_BUILTIN HIGH] s2)"


text \<open>
  \<^verbatim>\<open>setup()\<close>, named \<open>setup_sketch\<close> here. The outcome of the WiFi connection
  is an input; the calls that configure the serial port, the pins, the WiFi and the web
  server leave no mark on the state modelled here, and the line that prints the IP address
  is left out. \<^verbatim>\<open>EEPROM.begin\<close> fills the RAM buffer from the flash.
\<close>

definition setup_sketch :: "config \<Rightarrow> bool \<Rightarrow> blinds \<Rightarrow> blinds" where
  "setup_sketch c wifi_connected s0 =
    (let s1 = s0\<lparr>eeprom_buffer := eeprom_flash s0\<rparr>;
         s2 = emit [ServoDetach, DigitalWrite LED_BUILTIN LOW] s1
     in if \<not> wifi_connected then emit [SerialText ''WiFi Failed!''] s2
        else
          let s3 = (if ee_initialized (eeprom_buffer s2) then
                      (emit [SerialText ''Using settings & position stored on EEPROM''] s2)
                        \<lparr>secondsToClose := ee_secondsToClose (eeprom_buffer s2),
                         secondsToOpen := ee_secondsToOpen (eeprom_buffer s2),
                         currentPosition := ee_currentPosition (eeprom_buffer s2)\<rparr>
                    else
                      EEPROM_commit
                        (EEPROM_put (PutCurrentPosition (currentPosition s2))
                          (EEPROM_put (PutSecondsToOpen (secondsToOpen s2))
                            (EEPROM_put (PutSecondsToClose (secondsToClose s2))
                              (EEPROM_put (PutInitialized True) s2)))));
              s4 = s3\<lparr>milliesPerPercentClose := (secondsToClose s3 * 1000) div 100,
                      millisPerPercentOpen := (secondsToOpen s3 * 1000) div 100\<rparr>
          in emit [SerialText ''Initial position: '', SerialDouble (currentPosition s4),
                   SerialText ''Seconds to close: '', SerialInt (uint (secondsToClose s4)),
                   SerialText ''Seconds to open: '', SerialInt (uint (secondsToOpen s4)),
                   DigitalWrite (GPIO 2) HIGH, DigitalWrite LED_BUILTIN HIGH] s4)"

section \<open>Runs of the cooperative loop\<close>

text \<open>
  Between two iterations of \<^verbatim>\<open>loop()\<close> a request handler may run. A run is a list of
  such operations, each with the value of \<^verbatim>\<open>millis()\<close> at its moment.
\<close>

datatype operation = Tick u32 | Move u32 double

fun step :: "config \<Rightarrow> blinds \<Rightarrow> operation \<Rightarrow> blinds" where
  "step c s (Tick t) = loop c t s"
| "step c s (Move t p) = startSpinning c t s p"

definition run :: "config \<Rightarrow> blinds \<Rightarrow> operation list \<Rightarrow> blinds" where
  "run c s ops = foldl (step c) s ops"

definition ticks :: "config \<Rightarrow> u32 list \<Rightarrow> blinds \<Rightarrow> blinds" where
  "ticks c ts s = foldl (\<lambda>s' t. loop c t s') s ts"

text \<open>
  An iteration of \<^verbatim>\<open>loop()\<close> as the specification words it, over times that do not
  wrap: \<open>elapsed\<close> is the true time since the start of the session and \<open>sinceReset\<close>
  the true time since the last reset, both in milliseconds. The elapsed fraction is
  \<open>elapsed / interval\<close>, the position is the starting position plus that fraction of
  the way to the target, the spin is complete when the position equals the target, the
  fraction is above 1 or the position is outside \<open>[0, 100]\<close>; otherwise the servo is
  reset when that is required and due. It is compared with \<open>loop\<close> in the section on the
  wrap-around of the clock.
\<close>

definition tick_unwrapped :: "config \<Rightarrow> nat \<Rightarrow> nat \<Rightarrow> u32 \<Rightarrow> blinds \<Rightarrow> blinds" where
  "tick_unwrapped c elapsed sinceReset now s =
    (if spinning s then
       let fraction = d_div (Finite (real elapsed)) (Finite (real_of_int (interval s)));
           position = d_add (startingPosition s)
                        (d_mul fraction (d_sub (desiredPosition s) (startingPosition s)));
           complete = (d_eq position (desiredPosition s) \<or> d_gt fraction (Finite 1)
                       \<or> d_lt position (Finite 0) \<or> d_gt position (Finite 100));
           s1 = s\<lparr>currentPosition := position\<rparr>
       in if complete then stopSpinning c s1
          else if SERVO_RESET_REQUIRED c \<and> unat (millisPerServoReset c) \<le> sinceReset
          then (resetServo c s1)\<lparr>lastResetMillis := now\<rparr>
          else s1
     else s)"

section \<open>Example inputs and auxiliary predicates\<close>

text \<open>
  A configuration with both calibrations at 10 seconds (100 ms per percent), a servo
  reset every 3 seconds and a cast that saturates; the same without the reset; one that
  opens in 20 seconds and closes in 10; a blank EEPROM and one that holds the position 50;
  the states after \<^verbatim>\<open>setup()\<close> on them; and a few states of moves started from there.
  \<open>double_03\<close> is the binary64 value nearest to 0.3.
\<close>

definition example_config :: config where
  "example_config =
     \<lparr> DEFAULT_SECONDS_TO_CLOSE = 10, DEFAULT_SECONDS_TO_OPEN = 10,
       SERVO_RESET_REQUIRED = True, SERVO_RESET_EVERY_SECONDS = 3,
       SERVO_RESET_DELAY_MILLISECONDS = 50, SERVO_STOP_SIGNAL_REQUIRED = False,
       SERVO_STOP_DUTYCYCLE = 90, SERVO_STOP_SIGNAL_MILLISECONDS = 100,
       LONG_OF_UNREPRESENTABLE =
         (\<lambda>d. if d_lt d (Finite 0) then 2147483648 else 2147483647) \<rparr>"

definition no_reset_config :: config where
  "no_reset_config = example_config\<lparr>SERVO_RESET_REQUIRED := False\<rparr>"


definition blank_flash :: eeprom where
  "blank_flash =
     \<lparr> ee_initialized = False, ee_secondsToClose = 0, ee_secondsToOpen = 0,
       ee_currentPosition = Finite 0 \<rparr>"

definition stored_flash :: eeprom where
  "stored_flash =
     \<lparr> ee_initialized = True, ee_secondsToClose = 10, ee_secondsToOpen = 10,
       ee_currentPosition = Finite 50 \<rparr>"

definition first_boot :: blinds where
  "first_boot = setup_sketch example_config True (initial_globals example_config blank_flash)"


definition rebooted :: blinds where
  "rebooted = setup_sketch example_config True (initial_globals example_config stored_flash)"

definition moving_to_50 :: blinds where
  "moving_to_50 = startSpinning example_config 7 first_boot (Finite 50)"

definition moving_to_100 :: blinds where
  "moving_to_100 = startSpinning example_config 0 first_boot (Finite 100)"

definition at_20 :: blinds where
  "at_20 = loop example_config 2000 moving_to_100"

definition started_before_wrap :: blinds where
  "started_before_wrap = startSpinning example_config 4294966296 first_boot (Finite 50)"



text \<open>
  What a run of ticks keeps of a session with target \<open>p\<close>, start \<open>q\<close>, interval \<open>i\<close>
  and start time \<open>t0\<close>: either the session is still there, or it has been stopped and
  its target is the current and the stored position.
\<close>

definition session_or_done :: "double \<Rightarrow> double \<Rightarrow> int \<Rightarrow> u32 \<Rightarrow> blinds \<Rightarrow> bool" where
  "session_or_done p q i t0 s =
     (if spinning s
      then desiredPosition s = p \<and> startingPosition s = q \<and> interval s = i \<and> previousMillis s = t0
      else currentPosition s = p \<and> ee_currentPosition (eeprom_flash s) = p)"

text \<open>
  The events appended to the trace between two states, the calls to the EEPROM among
  them, and what a session that started in \<open>s\<close> with target \<open>d\<close> has done to the
  EEPROM by the state \<open>sf\<close>: nothing while it spins, one \<^verbatim>\<open>put\<close> and one
  \<^verbatim>\<open>commit\<close> of \<open>d\<close> once it has stopped.
\<close>

fun is_eeprom_event :: "event \<Rightarrow> bool" where
  "is_eeprom_event (EepromPut _) = True"
| "is_eeprom_event EepromCommit = True"
| "is_eeprom_event _ = False"

definition new_events :: "blinds \<Rightarrow> blinds \<Rightarrow> event list" where
  "new_events s s' = drop (length (trace s)) (trace s')"

definition extends :: "blinds \<Rightarrow> blinds \<Rightarrow> bool" where
  "extends s s' = (take (length (trace s)) (trace s') = trace s)"

definition persisted_once :: "blinds \<Rightarrow> double \<Rightarrow> blinds \<Rightarrow> bool" where
  "persisted_once s d sf =
     (extends s sf \<and>
      (if spinning sf
       then desiredPosition sf = d
          \<and> filter is_eeprom_event (new_events s sf) = []
          \<and> eeprom_flash sf = eeprom_flash s
       else filter is_eeprom_event (new_events s sf) = [EepromPut (PutCurrentPosition d), EepromCommit]
          \<and> ee_currentPosition (eeprom_flash sf) = d
          \<and> currentPosition sf = d))"

text \<open>
  Positions between 0 and 100, requests whose target is one, and the states in which
  \<^verbatim>\<open>desiredPosition\<close> is in that range, \<^verbatim>\<open>startingPosition\<close> is in that range or NaN,
  and \<^verbatim>\<open>currentPosition\<close> is in that range or, while the controller spins, NaN.
\<close>

fun in_percent_range :: "double \<Rightarrow> bool" where
  "in_percent_range (Finite x) = (0 \<le> x \<and> x \<le> 100)"
| "in_percent_range _ = False"

fun valid_target :: "operation \<Rightarrow> bool" where
  "valid_target (Tick t) = True"
| "valid_target (Move t p) = in_percent_range p"

definition positions_in_range :: "blinds \<Rightarrow> bool" where
  "positions_in_range s =
     (in_percent_range (desiredPosition s) \<and>
      (in_percent_range (startingPosition s) \<or> startingPosition s = NaN) \<and>
      (in_percent_range (currentPosition s) \<or> spinning s \<and> currentPosition s = NaN))"


section \<open>Facts about the arithmetic\<close>

lemma pow2_powr: "pow2 k = 2 powr (real_of_int k)"
  by (simp add: pow2_def powr_real_of_int)

lemma pow2_pos: "0 < pow2 k"
  by (simp add: pow2_powr)

lemma pow2_add: "pow2 (a + b) = pow2 a * pow2 b"
  by (simp add: pow2_powr powr_add)

lemma pow2_le_iff: "(pow2 a \<le> pow2 b) = (a \<le> b)"
  by (simp add: pow2_powr)

lemma pow2_less_iff: "(pow2 a < pow2 b) = (a < b)"
  by (simp add: pow2_powr)

lemma pow2_nat: "0 \<le> k \<Longrightarrow> pow2 k = of_int (2 ^ nat k)"
  by (simp add: pow2_def)

lemma binade_bounds:
  assumes "x \<noteq> 0"
  shows "pow2 (binade x) \<le> \<bar>x\<bar>" and "\<bar>x\<bar> < pow2 (binade x + 1)"
proof -
  have pos: "0 < \<bar>x\<bar>" using assms by simp
  have x: "2 powr (log 2 \<bar>x\<bar>) = \<bar>x\<bar>" using pos by simp
  have "real_of_int (binade x) \<le> log 2 \<bar>x\<bar>" by (simp add: binade_def)
  then have "2 powr real_of_int (binade x) \<le> 2 powr (log 2 \<bar>x\<bar>)"
    by (subst powr_le_cancel_iff) simp_all
  then show "pow2 (binade x) \<le> \<bar>x\<bar>" by (simp only: x pow2_powr)
  have "log 2 \<bar>x\<bar> < real_of_int (binade x + 1)" by (simp add: binade_def)
  then have "2 powr (log 2 \<bar>x\<bar>) < 2 powr real_of_int (binade x + 1)"
    by (subst powr_less_cancel_iff) simp_all
  then show "\<bar>x\<bar> < pow2 (binade x + 1)" by (simp only: x pow2_powr)
qed

lemma binade_eq:
  assumes "pow2 e \<le> \<bar>x\<bar>" and "\<bar>x\<bar> < pow2 (e + 1)"
  shows "binade x = e"
proof -
  have pos: "0 < \<bar>x\<bar>" using assms(1) pow2_pos [of e] by linarith
  then have nz: "x \<noteq> 0" by auto
  from binade_bounds [OF nz] assms
  have "pow2 (binade x) < pow2 (e + 1)" and "pow2 e < pow2 (binade x + 1)" by linarith+
  then have "binade x < e + 1" and "e < binade x + 1" by (simp_all only: pow2_less_iff)
  then show ?thesis by simp
qed

lemma round_even_bounds: "\<lfloor>x\<rfloor> \<le> round_even x" "round_even x \<le> \<lfloor>x\<rfloor> + 1"
  by (simp_all add: round_even_def)

lemma round_even_of_int: "round_even (of_int n) = n"
  by (simp add: round_even_def)

lemma round_even_le: "x \<le> of_int m \<Longrightarrow> round_even x \<le> m"
proof -
  assume a: "x \<le> of_int m"
  then have f: "\<lfloor>x\<rfloor> \<le> m" by (simp add: floor_le_iff)
  show ?thesis
  proof (cases "\<lfloor>x\<rfloor> = m")
    case True
    then have "x = of_int m" using a by (metis of_int_floor_le order_antisym)
    then show ?thesis by (simp add: round_even_of_int)
  next
    case False
    with f round_even_bounds(2) [of x] show ?thesis by linarith
  qed
qed

lemma round_even_ge: "of_int m \<le> x \<Longrightarrow> m \<le> round_even x"
proof -
  assume "of_int m \<le> x"
  then have "m \<le> \<lfloor>x\<rfloor>" by (simp add: le_floor_iff)
  with round_even_bounds(1) [of x] show ?thesis by linarith
qed

lemma round_even_near:
  assumes "\<bar>x - of_int n\<bar> < 1 / 2"
  shows "round_even x = n"
proof -
  consider "\<lfloor>x\<rfloor> = n" | "\<lfloor>x\<rfloor> = n - 1"
    using assms by (cases "of_int n \<le> x") (auto simp: floor_eq_iff abs_if split: if_splits)
  then show ?thesis
  proof cases
    case 1
    with assms show ?thesis by (auto simp: round_even_def abs_if split: if_splits)
  next
    case 2
    with assms show ?thesis by (auto simp: round_even_def abs_if split: if_splits)
  qed
qed

lemma round_double_zero: "round_double 0 = Finite 0"
  by (simp add: round_double_def)

text \<open>Evaluation of the rounding at a given number, from its binade and its neighbour.\<close>

lemma round_double_near:
  assumes "pow2 e \<le> \<bar>x\<bar>" and "\<bar>x\<bar> < pow2 (e + 1)" and "- 1022 \<le> e"
    and "\<bar>x / pow2 (e - 52) - of_int n\<bar> < 1 / 2"
    and "\<bar>of_int n * pow2 (e - 52)\<bar> < pow2 1024"
  shows "round_double x = Finite (of_int n * pow2 (e - 52))"
proof -
  have nz: "x \<noteq> 0" using assms(1) pow2_pos [of e] by auto
  have b: "max (binade x) (- 1022) = e" using binade_eq [OF assms(1,2)] assms(3) by simp
  have r: "round_even (x / pow2 (e - 52)) = n" by (rule round_even_near [OF assms(4)])
  show ?thesis using nz assms(5) by (simp add: round_double_def b r)
qed

text \<open>The rounding keeps a number within integer bounds of up to 52 bits.\<close>

lemma round_double_le_int:
  assumes "\<bar>x\<bar> \<le> of_int m" and "m \<le> 2 ^ 52"
  shows "\<exists>r. round_double x = Finite r \<and> \<bar>r\<bar> \<le> of_int m"
proof (cases "x = 0")
  case True
  with assms(1) show ?thesis by (simp add: round_double_zero)
next
  case False
  define e where "e = max (binade x) (- 1022)"
  define K :: int where "K = 2 ^ nat (52 - e)"
  have "pow2 (binade x) \<le> pow2 52"
    using binade_bounds(1) [OF False] assms by (simp add: pow2_def)
  then have "binade x \<le> 52" by (simp only: pow2_le_iff)
  then have e52: "e \<le> 52" by (simp add: e_def)
  have K: "of_int K = pow2 (52 - e)" using e52 by (simp add: K_def pow2_nat)
  have Kpos: "0 < (of_int K :: real)" unfolding K by (rule pow2_pos)
  have u: "pow2 (e - 52) * of_int K = 1"
    unfolding K using pow2_add [of "e - 52" "52 - e"] by (simp add: pow2_def)
  then have inv: "x / pow2 (e - 52) = x * of_int K"
    using pow2_pos [of "e - 52"] by (simp add: field_simps)
  define N where "N = round_even (x * of_int K)"
  define u where "u = pow2 (e - 52)"
  have upos: "0 < u" by (simp add: u_def pow2_pos)
  have Ku: "of_int K * u = 1" using u by (simp add: u_def mult.commute)
  have xm: "x \<le> of_int m" and mx: "- of_int m \<le> x" using assms(1) by linarith+
  have K0: "0 \<le> (of_int K :: real)" using Kpos by simp
  have "x * of_int K \<le> of_int m * of_int K" by (rule mult_right_mono [OF xm K0])
  moreover have "(- of_int m) * of_int K \<le> x * of_int K" by (rule mult_right_mono [OF mx K0])
  ultimately have b1: "x * of_int K \<le> of_int (m * K)"
    and b2: "of_int (- (m * K)) \<le> x * of_int K"
    by simp_all
  have "N \<le> m * K" unfolding N_def by (rule round_even_le [OF b1])
  moreover have "- (m * K) \<le> N" unfolding N_def by (rule round_even_ge [OF b2])
  ultimately have "\<bar>N\<bar> \<le> m * K" by linarith
  then have n: "\<bar>real_of_int N\<bar> \<le> real_of_int (m * K)"
    by (metis of_int_abs of_int_le_iff)
  define r where "r = of_int (round_even (x / pow2 (e - 52))) * pow2 (e - 52)"
  have "r = of_int N * u" by (simp add: r_def inv N_def u_def)
  then have "\<bar>r\<bar> = \<bar>real_of_int N\<bar> * u" using upos by (simp add: abs_mult)
  also have "\<dots> \<le> real_of_int (m * K) * u"
    using n upos by (rule mult_right_mono [OF _ less_imp_le])
  also have "\<dots> = of_int m * (of_int K * u)" by simp
  also have "\<dots> = of_int m" by (simp only: Ku mult_1_right)
  finally have r: "\<bar>r\<bar> \<le> of_int m" .
  have "of_int m < pow2 1024" using assms(2)
  proof -
    have "(of_int m :: real) \<le> 2 ^ 52" using assms(2) by (metis of_int_le_iff of_int_numeral of_int_power)
    also have "\<dots> < pow2 1024" by (simp add: pow2_def)
    finally show ?thesis .
  qed
  with r have "\<not> pow2 1024 \<le> \<bar>r\<bar>" by linarith
  then have "round_double x = Finite r"
    using False unfolding round_double_def r_def e_def by simp
  with r show ?thesis by blast
qed

lemma round_double_int:
  assumes "\<bar>m\<bar> \<le> 2 ^ 52"
  shows "round_double (of_int m) = Finite (of_int m)"
proof (cases "m = 0")
  case True
  then show ?thesis by (simp add: round_double_zero)
next
  case False
  define x :: real where "x = of_int m"
  have nz: "x \<noteq> 0" using False by (simp add: x_def)
  define e where "e = max (binade x) (- 1022)"
  define K :: int where "K = 2 ^ nat (52 - e)"
  have ax: "\<bar>x\<bar> \<le> 2 ^ 52" unfolding x_def using assms
    by (metis of_int_abs of_int_le_iff of_int_numeral of_int_power)
  have "pow2 (binade x) \<le> pow2 52"
    using binade_bounds(1) [OF nz] ax by (simp add: pow2_def)
  then have "binade x \<le> 52" by (simp only: pow2_le_iff)
  then have e52: "e \<le> 52" by (simp add: e_def)
  have K: "of_int K = pow2 (52 - e)" using e52 by (simp add: K_def pow2_nat)
  have u: "pow2 (e - 52) * of_int K = 1"
    unfolding K using pow2_add [of "e - 52" "52 - e"] by (simp add: pow2_def)
  then have inv: "x / pow2 (e - 52) = of_int (m * K)"
    using pow2_pos [of "e - 52"] by (simp add: field_simps x_def)
  have "real_of_int (m * K) * pow2 (e - 52) = of_int m * (pow2 (e - 52) * of_int K)" by simp
  also have "\<dots> = x" by (simp only: u mult_1_right x_def)
  finally have r: "of_int (round_even (x / pow2 (e - 52))) * pow2 (e - 52) = x"
    unfolding inv round_even_of_int .
  have "\<bar>x\<bar> < pow2 1024" using ax by (simp add: pow2_def)
  then have "round_double x = Finite x"
    using nz r unfolding round_double_def e_def [symmetric] by simp
  then show ?thesis by (simp add: x_def)
qed

text \<open>A number above \<open>1 + 2^(-32)\<close> is rounded to a number above 1.\<close>

lemma round_double_gt_one:
  assumes "1 + 1 / 2 ^ 32 \<le> x"
  shows "d_gt (round_double x) (Finite 1)"
proof -
  have xpos: "0 < x" and x1: "1 \<le> x" using assms by (auto intro: order_trans [rotated])
  have nz: "x \<noteq> 0" using xpos by simp
  define b where "b = binade x"
  have "pow2 0 < pow2 (b + 1)"
    using binade_bounds(2) [OF nz] x1 by (simp add: b_def pow2_def)
  then have "0 < b + 1" by (simp only: pow2_less_iff)
  then have b0: "0 \<le> b" by simp
  then have e: "max (binade x) (- 1022) = b" by (simp add: b_def)
  define u where "u = pow2 (b - 52)"
  have upos: "0 < u" by (simp add: u_def pow2_pos)
  have "u = pow2 b * pow2 (- 52)" using pow2_add [of b "- 52"] by (simp add: u_def)
  moreover have "pow2 b \<le> x" using binade_bounds(1) [OF nz] xpos by (simp add: b_def)
  ultimately have ux: "u \<le> x * pow2 (- 52)"
    using pow2_pos [of "- 52"] by (simp add: mult_right_mono)
  define r where "r = of_int (round_even (x / u)) * u"
  have "x / u - 1 < of_int \<lfloor>x / u\<rfloor>" by linarith
  also have "\<dots> \<le> of_int (round_even (x / u))" using round_even_bounds(1) [of "x / u"] by simp
  finally have "(x / u - 1) * u < r" using upos by (simp add: r_def)
  moreover have "(x / u - 1) * u = x - u" using upos by (simp add: left_diff_distrib)
  ultimately have "x - u < r" by simp
  moreover have "1 < x - x * pow2 (- 52)"
  proof -
    have c: "(0 :: real) \<le> 1 - pow2 (- 52)" by (simp add: pow2_def)
    have "(1 + 1 / 2 ^ 32) * (1 - pow2 (- 52)) \<le> x * (1 - pow2 (- 52))"
      using assms c by (rule mult_right_mono)
    moreover have "(1 :: real) < (1 + 1 / 2 ^ 32) * (1 - pow2 (- 52))"
      by (simp add: pow2_def)
    moreover have "x - x * pow2 (- 52) = x * (1 - pow2 (- 52))" by (simp add: algebra_simps)
    ultimately show ?thesis by linarith
  qed
  ultimately have r1: "1 < r" using ux by linarith
  have "round_double x = PInf \<or> round_double x = Finite r"
    using nz xpos unfolding round_double_def e u_def [symmetric] r_def by simp
  with r1 show ?thesis by (auto simp: d_gt_def)
qed

text \<open>A number that is not negative is rounded to a number that is not negative.\<close>

lemma round_double_nonneg:
  assumes "0 \<le> x"
  shows "round_double x = PInf \<or> (\<exists>r. round_double x = Finite r \<and> 0 \<le> r)"
proof (cases "x = 0")
  case True
  then show ?thesis by (simp add: round_double_zero)
next
  case False
  define u where "u = pow2 (max (binade x) (- 1022) - 52)"
  have upos: "0 < u" by (simp add: u_def pow2_pos)
  have "0 \<le> x / u" using assms upos by simp
  then have "0 \<le> round_even (x / u)" using round_even_ge [of 0 "x / u"] by simp
  then have "0 \<le> of_int (round_even (x / u)) * u" using upos by simp
  then show ?thesis
    using False assms unfolding round_double_def u_def [symmetric] by auto
qed

lemma d_add_commute: "d_add a b = d_add b a"
  by (cases a; cases b) (simp_all add: add.commute)

lemma d_sub_same: "d_sub (Finite x) (Finite x) = Finite 0"
  by (simp add: d_sub_def round_double_zero)

lemma d_abs_zero: "d_abs (Finite 0) = Finite 0"
  by (simp add: d_abs_def d_gt_def)

lemma d_mul_zero: "d_mul (Finite 0) (Finite y) = Finite 0"
  by (simp add: round_double_zero)

lemma trunc_real_nonneg: "0 \<le> x \<Longrightarrow> trunc_real x = \<lfloor>x\<rfloor>"
  by (simp add: trunc_real_def)

lemma long_of_double_in_range:
  "0 \<le> v \<Longrightarrow> v < 2147483648 \<Longrightarrow> long_of_double c (Finite v) = \<lfloor>v\<rfloor>"
  by (simp add: long_of_double_def trunc_real_def)

lemma elapsed_across_wraparound:
  assumes "T0 \<le> T" and "T < T0 + 2 ^ 32"
  shows "unat (of_nat T - of_nat T0 :: u32) = T - T0"
proof -
  have "(of_nat T - of_nat T0 :: u32) = of_nat (T - T0)"
    using assms(1) by simp
  moreover have "(T - T0) mod 2 ^ 32 = T - T0" using assms by simp
  ultimately show ?thesis by (simp add: unat_of_nat)
qed

section \<open>Facts about the functions\<close>

lemma startSpinning_noop:
  "\<not> (d_ne p (desiredPosition s) \<or> d_ne p (currentPosition s)) \<Longrightarrow>
   startSpinning c t s p = emit [DigitalWrite LED_BUILTIN LOW, DigitalWrite LED_BUILTIN HIGH] s"
  by (simp add: startSpinning_def emit_def Let_def)

lemma startSpinning_created:
  assumes "d_ne p (desiredPosition s) \<or> d_ne p (currentPosition s)"
  shows "interval (startSpinning c t s p) =
           long_of_double c (d_mul (d_abs (d_sub p (currentPosition s)))
             (double_of_u32 (if d_gt p (currentPosition s) then millisPerPercentOpen s
                             else milliesPerPercentClose s)))"
    and "spinning (startSpinning c t s p)"
    and "desiredPosition (startSpinning c t s p) = p"
    and "startingPosition (startSpinning c t s p) = currentPosition s"
    and "currentPosition (startSpinning c t s p) = currentPosition s"
    and "previousMillis (startSpinning c t s p) = t"
    and "lastResetMillis (startSpinning c t s p) = t"
    and "direction (startSpinning c t s p) = (if d_gt p (currentPosition s) then 1 else - 1)"
    and "dutyCycle (startSpinning c t s p) = (if d_gt p (currentPosition s) then 0 else 180)"
    and "eeprom_flash (startSpinning c t s p) = eeprom_flash s"
    and "eeprom_buffer (startSpinning c t s p) = eeprom_buffer s"
    and "millisPerPercentOpen (startSpinning c t s p) = millisPerPercentOpen s"
    and "milliesPerPercentClose (startSpinning c t s p) = milliesPerPercentClose s"
  using assms by (simp_all add: startSpinning_def emit_def Let_def)

text \<open>
  Between positions in \<open>[0, 100]\<close>, at a rate of at most 21474836 ms per percent, the
  cast is defined and the interval is at most 100 times the rate.
\<close>

lemma interval_of_valid_move:
  assumes "d_ne (Finite x) (desiredPosition s) \<or> d_ne (Finite x) (currentPosition s)"
    and "currentPosition s = Finite y"
    and "0 \<le> x" "x \<le> 100" "0 \<le> y" "y \<le> 100"
    and "unat (millisPerPercentOpen s) \<le> 21474836"
    and "unat (milliesPerPercentClose s) \<le> 21474836"
  shows "0 \<le> interval (startSpinning c t s (Finite x))"
    and "interval (startSpinning c t s (Finite x)) \<le> 2147483600"
proof -
  define rate where "rate = (if d_gt (Finite x) (currentPosition s) then millisPerPercentOpen s
                             else milliesPerPercentClose s)"
  define n where "n = unat rate"
  have rate: "n \<le> 21474836" using assms(7,8) by (simp add: rate_def n_def)
  have "\<bar>x + - y\<bar> \<le> of_int 100" using assms(3-6) by simp
  from round_double_le_int [OF this] obtain r where
    r: "round_double (x + - y) = Finite r" "\<bar>r\<bar> \<le> 100" by auto
  have "d_sub (Finite x) (Finite y) = Finite r" using r(1) by (simp add: d_sub_def)
  then have ab: "d_abs (d_sub (Finite x) (Finite y)) = Finite \<bar>r\<bar>"
    by (simp add: d_abs_def d_gt_def abs_if)
  define m :: int where "m = 100 * int n"
  have m: "m \<le> 2147483600" using rate by (simp add: m_def)
  have "\<bar>r\<bar> * real n \<le> 100 * real n"
    using r(2) by (intro mult_right_mono) simp_all
  then have le: "\<bar>\<bar>r\<bar> * real n\<bar> \<le> of_int m"
    by (simp add: m_def abs_mult)
  have "m \<le> 2 ^ 52" using m by simp
  from round_double_le_int [OF le this] obtain v where
    v: "round_double (\<bar>r\<bar> * real n) = Finite v" "\<bar>v\<bar> \<le> of_int m" by auto
  have "0 \<le> \<bar>r\<bar> * real n" by (intro mult_nonneg_nonneg abs_ge_zero of_nat_0_le_iff)
  from round_double_nonneg [OF this] v(1) have v0: "0 \<le> v" by simp
  have vm: "v \<le> of_int m" using v(2) by linarith
  have "real_of_int m \<le> 2147483600" using m by (metis of_int_le_iff of_int_numeral)
  with vm have v31: "v < 2147483648" by linarith
  have "d_mul (d_abs (d_sub (Finite x) (currentPosition s))) (double_of_u32 rate) = Finite v"
    by (simp add: assms(2) ab double_of_u32_def n_def [symmetric] v(1))
  then have i: "interval (startSpinning c t s (Finite x)) = \<lfloor>v\<rfloor>"
    using startSpinning_created(1) [OF assms(1), of c t]
    by (simp add: rate_def [symmetric] long_of_double_in_range [OF v0 v31])
  show "0 \<le> interval (startSpinning c t s (Finite x))" using v0 by (simp add: i)
  have "\<lfloor>v\<rfloor> \<le> m" using vm by (simp add: floor_le_iff)
  then show "interval (startSpinning c t s (Finite x)) \<le> 2147483600" using m unfolding i by linarith
qed

lemma loop_idle: "\<not> spinning s \<Longrightarrow> loop c t s = s"
  by (simp add: loop_def)

lemma stopSpinning_fields:
  "spinning (stopSpinning c s) = False"
  "currentPosition (stopSpinning c s) = desiredPosition s"
  "desiredPosition (stopSpinning c s) = desiredPosition s"
  "startingPosition (stopSpinning c s) = startingPosition s"
  "eeprom_flash (stopSpinning c s) = (eeprom_buffer s)\<lparr>ee_currentPosition := desiredPosition s\<rparr>"
  "eeprom_buffer (stopSpinning c s) = (eeprom_buffer s)\<lparr>ee_currentPosition := desiredPosition s\<rparr>"
  "lastResetMillis (stopSpinning c s) = lastResetMillis s"
  by (simp_all add: stopSpinning_def emit_def EEPROM_put_def EEPROM_commit_def Let_def)

lemma resetServo_fields:
  "spinning (resetServo c s) = spinning s"
  "desiredPosition (resetServo c s) = desiredPosition s"
  "startingPosition (resetServo c s) = startingPosition s"
  "currentPosition (resetServo c s) = currentPosition s"
  "interval (resetServo c s) = interval s"
  "previousMillis (resetServo c s) = previousMillis s"
  "eeprom_flash (resetServo c s) = eeprom_flash s"
  "eeprom_buffer (resetServo c s) = eeprom_buffer s"
  by (simp_all add: resetServo_def emit_def)

lemma loop_reached:
  "spinning s \<Longrightarrow> reached s t \<Longrightarrow>
   loop c t s = stopSpinning c (s\<lparr>currentPosition := estimate s t\<rparr>)"
  by (simp add: loop_def Let_def stopSpinning_fields)

lemma loop_continue:
  "spinning s \<Longrightarrow> \<not> reached s t \<Longrightarrow>
   loop c t s =
     (if SERVO_RESET_REQUIRED c \<and> millisPerServoReset c \<le> t - lastResetMillis s
      then (resetServo c (s\<lparr>currentPosition := estimate s t\<rparr>))\<lparr>lastResetMillis := t\<rparr>
      else s\<lparr>currentPosition := estimate s t\<rparr>)"
  by (simp add: loop_def Let_def)

text \<open>
  Once more time has elapsed than the interval, the quotient is above 1: it is \<open>+inf\<close>
  for the interval zero, and the rounding of a number of at least \<open>1 + 2^(-32)\<close> otherwise.
\<close>

lemma reached_when_overdue:
  assumes "0 \<le> interval s" and "interval s < int (unat (now - previousMillis s))"
  shows "d_gt (percentCompleted s now) (Finite 1)" and "reached s now"
proof -
  define e where "e = unat (now - previousMillis s)"
  have a2: "interval s < int e" using assms(2) unfolding e_def .
  then have "0 < int e" using assms(1) by linarith
  then have epos: "0 < e" by simp
  have e32: "e < 2 ^ 32" unfolding e_def using unsigned_less [of "now - previousMillis s", where 'a = nat] by simp
  show g: "d_gt (percentCompleted s now) (Finite 1)"
  proof (cases "interval s = 0")
    case True
    then have "percentCompleted s now = PInf"
      using epos by (simp add: percentCompleted_def double_of_u32_def double_of_long_def
          d_signed_inf_def e_def [symmetric])
    then show ?thesis by (simp add: d_gt_def)
  next
    case False
    define i where "i = nat (interval s)"
    have ipos: "0 < i" and ii: "interval s = int i" using False assms(1) by (simp_all add: i_def)
    have ie: "i + 1 \<le> e" using a2 by (simp add: ii)
    have i32: "real i \<le> 2 ^ 32" using ie e32 by (metis add_leE less_imp_le_nat of_nat_le_iff of_nat_numeral of_nat_power order_trans)
    have pc: "percentCompleted s now = round_double (real e / real i)"
      using ipos by (simp add: percentCompleted_def double_of_u32_def double_of_long_def e_def ii)
    have "1 / 2 ^ 32 \<le> 1 / real i" using ipos i32 by (simp add: field_simps)
    moreover have "1 + 1 / real i = (real i + 1) / real i" using ipos by (simp add: field_simps)
    moreover have "real i + 1 \<le> real e" using ie by (metis of_nat_1 of_nat_add of_nat_le_iff)
    then have "(real i + 1) / real i \<le> real e / real i"
      by (rule divide_right_mono) simp
    ultimately have "1 + 1 / 2 ^ 32 \<le> real e / real i" by linarith
    then show ?thesis unfolding pc by (rule round_double_gt_one)
  qed
  then show "reached s now" by (simp add: reached_def)
qed

section \<open>Traces and invariants of a run\<close>

lemma extends_trans:
  assumes "extends s s'" and "extends s' s''"
  shows "extends s s''" and "new_events s s'' = new_events s s' @ new_events s' s''"
proof -
  from assms(1) have a: "trace s' = trace s @ new_events s s'"
    unfolding extends_def new_events_def by (metis append_take_drop_id)
  from assms(2) have b: "trace s'' = trace s' @ new_events s' s''"
    unfolding extends_def new_events_def by (metis append_take_drop_id)
  show "extends s s''" by (simp add: extends_def a b)
  show "new_events s s'' = new_events s s' @ new_events s' s''"
    unfolding new_events_def [of s s''] by (simp add: a b)
qed

lemma extendsI:
  "trace s' = trace s @ evs \<Longrightarrow> extends s s' \<and> new_events s s' = evs"
  by (simp add: extends_def new_events_def)

lemma stopSpinning_trace:
  "trace (stopSpinning c s) = trace s @
     (if SERVO_STOP_SIGNAL_REQUIRED c
      then [ServoWrite (SERVO_STOP_DUTYCYCLE c), Delay (SERVO_STOP_SIGNAL_MILLISECONDS c)] else []) @
     [ServoDetach, EepromPut (PutCurrentPosition (desiredPosition s)), EepromCommit,
      SerialText ''finished spinning!'', DigitalWrite (GPIO 2) HIGH]"
  by (simp add: stopSpinning_def emit_def EEPROM_put_def EEPROM_commit_def Let_def)

lemma resetServo_trace:
  "trace (resetServo c s) = trace s @
     [SerialText ''detatching servo'', ServoDetach, Delay (SERVO_RESET_DELAY_MILLISECONDS c),
      SerialText ''re-attatching servo'', ServoAttach servoPin, ServoWrite (dutyCycle s)]"
  by (simp add: resetServo_def emit_def)

lemma loop_trace:
  "trace (loop c now s) = trace s @
     (if spinning s \<and> reached s now
      then (if SERVO_STOP_SIGNAL_REQUIRED c
            then [ServoWrite (SERVO_STOP_DUTYCYCLE c), Delay (SERVO_STOP_SIGNAL_MILLISECONDS c)] else []) @
           [ServoDetach, EepromPut (PutCurrentPosition (desiredPosition s)), EepromCommit,
            SerialText ''finished spinning!'', DigitalWrite (GPIO 2) HIGH]
      else []) @
     (if SERVO_RESET_REQUIRED c \<and> spinning s \<and> \<not> reached s now
         \<and> millisPerServoReset c \<le> now - lastResetMillis s
      then [SerialText ''detatching servo'', ServoDetach, Delay (SERVO_RESET_DELAY_MILLISECONDS c),
            SerialText ''re-attatching servo'', ServoAttach servoPin, ServoWrite (dutyCycle s)]
      else [])"
proof (cases "spinning s")
  case False
  then show ?thesis by (simp add: loop_idle)
next
  case True
  show ?thesis
  proof (cases "reached s now")
    case True
    with \<open>spinning s\<close> show ?thesis by (simp add: loop_reached stopSpinning_trace)
  next
    case False
    with \<open>spinning s\<close> show ?thesis by (simp add: loop_continue resetServo_trace)
  qed
qed

lemma loop_eeprom:
  "extends s (loop c now s)"
  "filter is_eeprom_event (new_events s (loop c now s)) =
     (if spinning s \<and> reached s now
      then [EepromPut (PutCurrentPosition (desiredPosition s)), EepromCommit] else [])"
  using extendsI [OF loop_trace [of c now s]] by simp_all

lemma startSpinning_trace:
  shows "extends s (startSpinning c t s p)"
    and "filter is_eeprom_event (new_events s (startSpinning c t s p)) = []"
    and "eeprom_flash (startSpinning c t s p) = eeprom_flash s"
proof -
  have "\<exists>evs. trace (startSpinning c t s p) = trace s @ evs \<and> filter is_eeprom_event evs = []
      \<and> eeprom_flash (startSpinning c t s p) = eeprom_flash s"
    by (simp add: startSpinning_def emit_def Let_def)
  then obtain evs where e: "trace (startSpinning c t s p) = trace s @ evs"
    "filter is_eeprom_event evs = []"
    "eeprom_flash (startSpinning c t s p) = eeprom_flash s" by blast
  from extendsI [OF e(1)] e(2,3)
  show "extends s (startSpinning c t s p)"
    and "filter is_eeprom_event (new_events s (startSpinning c t s p)) = []"
    and "eeprom_flash (startSpinning c t s p) = eeprom_flash s" by simp_all
qed

lemma session_or_done_loop:
  assumes "session_or_done p q i t0 s"
  shows "session_or_done p q i t0 (loop c t s)"
proof (cases "spinning s")
  case False
  then show ?thesis using assms by (simp add: loop_idle)
next
  case True
  show ?thesis
  proof (cases "reached s t")
    case True
    with \<open>spinning s\<close> assms show ?thesis
      by (simp add: loop_reached session_or_done_def stopSpinning_fields)
  next
    case False
    with \<open>spinning s\<close> assms show ?thesis
      by (simp add: loop_continue session_or_done_def resetServo_fields)
  qed
qed


lemma stopped_when_overdue:
  assumes "session_or_done p q i t0 s"
    and "0 \<le> i" and "i < int (unat (now - t0))"
  shows "\<not> spinning (loop c now s)"
    and "currentPosition (loop c now s) = p"
    and "ee_currentPosition (eeprom_flash (loop c now s)) = p"
proof -
  have "\<not> spinning (loop c now s) \<and> currentPosition (loop c now s) = p
      \<and> ee_currentPosition (eeprom_flash (loop c now s)) = p"
  proof (cases "spinning s")
    case False
    with assms(1) show ?thesis by (simp add: loop_idle session_or_done_def)
  next
    case True
    with assms have "reached s now"
      by (intro reached_when_overdue(2)) (simp_all add: session_or_done_def)
    with True assms(1) show ?thesis
      by (simp add: loop_reached stopSpinning_fields session_or_done_def)
  qed
  then show "\<not> spinning (loop c now s)" and "currentPosition (loop c now s) = p"
    and "ee_currentPosition (eeprom_flash (loop c now s)) = p" by simp_all
qed

lemma persisted_once_loop:
  assumes "persisted_once s d sf"
  shows "persisted_once s d (loop c t sf)"
proof (cases "spinning sf")
  case False
  then show ?thesis using assms by (simp add: loop_idle)
next
  case True
  from assms have e: "extends s sf" by (simp add: persisted_once_def)
  note tr = extends_trans [OF e loop_eeprom(1) [of sf c t]]
  show ?thesis
  proof (cases "reached sf t")
    case True
    with \<open>spinning sf\<close> assms show ?thesis
      unfolding persisted_once_def
      by (simp add: tr loop_eeprom(2)) (simp add: loop_reached stopSpinning_fields)
  next
    case False
    with \<open>spinning sf\<close> assms show ?thesis
      unfolding persisted_once_def
      by (simp add: tr loop_eeprom(2)) (simp add: loop_continue resetServo_fields)
  qed
qed

lemma persisted_once_ticks:
  "persisted_once s d sf \<Longrightarrow> persisted_once s d (ticks c ts sf)"
  unfolding ticks_def
  by (induction ts arbitrary: sf) (simp_all add: persisted_once_loop)

text \<open>An estimate that passes the two range tests of \<open>loop\<close> is in the range or NaN.\<close>

lemma in_range_or_nan:
  "\<not> d_lt d (Finite 0) \<Longrightarrow> \<not> d_gt d (Finite 100) \<Longrightarrow> in_percent_range d \<or> d = NaN"
  by (cases d) (auto simp: d_gt_def)

lemma positions_in_range_loop:
  assumes "positions_in_range s"
  shows "positions_in_range (loop c t s)"
proof (cases "spinning s")
  case False
  then show ?thesis using assms by (simp add: loop_idle)
next
  case True
  show ?thesis
  proof (cases "reached s t")
    case True
    with \<open>spinning s\<close> assms show ?thesis
      by (simp add: loop_reached stopSpinning_fields positions_in_range_def)
  next
    case False
    then have "in_percent_range (estimate s t) \<or> estimate s t = NaN"
      by (intro in_range_or_nan) (simp_all add: reached_def)
    moreover have "spinning (loop c t s)" "desiredPosition (loop c t s) = desiredPosition s"
      "startingPosition (loop c t s) = startingPosition s"
      "currentPosition (loop c t s) = estimate s t"
      using \<open>spinning s\<close> False by (simp_all add: loop_continue resetServo_fields)
    ultimately show ?thesis using assms by (auto simp: positions_in_range_def)
  qed
qed

lemma positions_in_range_startSpinning:
  assumes "positions_in_range s" and "in_percent_range p"
  shows "positions_in_range (startSpinning c t s p)"
proof (cases "d_ne p (desiredPosition s) \<or> d_ne p (currentPosition s)")
  case False
  with assms(1) show ?thesis
    by (simp add: startSpinning_noop positions_in_range_def emit_def)
next
  case True
  note f = startSpinning_created [OF True, of c t]
  show ?thesis using assms f(2) by (auto simp: positions_in_range_def f(3,4,5))
qed

lemma positions_in_range_run:
  "positions_in_range s \<Longrightarrow> list_all valid_target ops \<Longrightarrow> positions_in_range (run c s ops)"
  unfolding run_def
proof (induction ops arbitrary: s)
  case Nil
  then show ?case by simp
next
  case (Cons x xs)
  have "positions_in_range (step c s x)"
  proof (cases x)
    case (Tick t)
    with Cons.prems(1) show ?thesis by (simp add: positions_in_range_loop)
  next
    case (Move t p)
    with Cons.prems show ?thesis by (simp add: positions_in_range_startSpinning)
  qed
  with Cons.IH [of "step c s x"] Cons.prems(2) show ?case by simp
qed

section \<open>The example states\<close>

lemma round_double_numeral:
  "(numeral k :: int) \<le> 2 ^ 52 \<Longrightarrow> round_double (numeral k) = Finite (numeral k)"
  using round_double_int [of "numeral k"] by simp

lemma round_double_one: "round_double 1 = Finite 1"
  using round_double_int [of 1] by simp

lemma rd_fifth: "round_double (1 / 5) = Finite (3602879701896397 / 18014398509481984)"
proof -
  have "round_double (1 / 5) = Finite (of_int 7205759403792794 * pow2 (- 3 - 52))"
    by (rule round_double_near) (simp_all add: pow2_def)
  then show ?thesis by (simp add: pow2_def)
qed

lemma rd_fifth_of_100: "round_double (90071992547409925 / 4503599627370496) = Finite 20"
proof -
  have "round_double (90071992547409925 / 4503599627370496) =
      Finite (of_int 5629499534213120 * pow2 (4 - 52))"
    by (rule round_double_near) (simp_all add: pow2_def)
  then show ?thesis by (simp add: pow2_def)
qed

lemma rd_two_fifths: "round_double (2 / 5) = Finite (3602879701896397 / 9007199254740992)"
proof -
  have "round_double (2 / 5) = Finite (of_int 7205759403792794 * pow2 (- 2 - 52))"
    by (rule round_double_near) (simp_all add: pow2_def)
  then show ?thesis by (simp add: pow2_def)
qed

lemma rd_two_fifths_of_100: "round_double (90071992547409925 / 2251799813685248) = Finite 40"
proof -
  have "round_double (90071992547409925 / 2251799813685248) =
      Finite (of_int 5629499534213120 * pow2 (5 - 52))"
    by (rule round_double_near) (simp_all add: pow2_def)
  then show ?thesis by (simp add: pow2_def)
qed

lemma rd_03_minus_50:
  "round_double (- (895315605921254605 / 18014398509481984)) =
     Finite (- (3497326585629901 / 70368744177664))"
proof -
  have "round_double (- (895315605921254605 / 18014398509481984)) =
      Finite (of_int (- 6994653171259802) * pow2 (5 - 52))"
    by (rule round_double_near) (simp_all add: pow2_def)
  then show ?thesis by (simp add: pow2_def)
qed

lemma rd_497_times_100: "round_double (87433164640747525 / 17592186044416) = Finite 4970"
proof -
  have "round_double (87433164640747525 / 17592186044416) =
      Finite (of_int 5464572790046720 * pow2 (12 - 52))"
    by (rule round_double_near) (simp_all add: pow2_def)
  then show ?thesis by (simp add: pow2_def)
qed

lemma rd_minus_497:
  "round_double (- (3497326585629901 / 70368744177664)) =
     Finite (- (3497326585629901 / 70368744177664))"
proof -
  have "round_double (- (3497326585629901 / 70368744177664)) =
      Finite (of_int (- 6994653171259802) * pow2 (5 - 52))"
    by (rule round_double_near) (simp_all add: pow2_def)
  then show ?thesis by (simp add: pow2_def)
qed

lemma rd_back_to_03:
  "round_double (21110623253299 / 70368744177664) = Finite (21110623253299 / 70368744177664)"
proof -
  have "round_double (21110623253299 / 70368744177664) =
      Finite (of_int 5404319552844544 * pow2 (- 2 - 52))"
    by (rule round_double_near) (simp_all add: pow2_def)
  then show ?thesis by (simp add: pow2_def)
qed

lemma rd_321_32: "round_double (321 / 32) = Finite (321 / 32)"
proof -
  have "round_double (321 / 32) = Finite (of_int 5647091720257536 * pow2 (3 - 52))"
    by (rule round_double_near) (simp_all add: pow2_def)
  then show ?thesis by (simp add: pow2_def)
qed

lemma rd_8025_8: "round_double (8025 / 8) = Finite (8025 / 8)"
proof -
  have "round_double (8025 / 8) = Finite (of_int 8823580812902400 * pow2 (9 - 52))"
    by (rule round_double_near) (simp_all add: pow2_def)
  then show ?thesis by (simp add: pow2_def)
qed

lemmas rd_simps = round_double_zero round_double_one round_double_numeral
  rd_fifth rd_fifth_of_100 rd_two_fifths rd_two_fifths_of_100
  rd_03_minus_50 rd_497_times_100 rd_minus_497 rd_back_to_03 rd_321_32 rd_8025_8

lemmas double_simps = d_sub_def d_abs_def d_gt_def d_eq_def d_ne_def double_of_u32_def
  double_of_long_def long_of_double_def trunc_real_def d_signed_inf_def

lemma example_config_fields:
  "SERVO_RESET_REQUIRED example_config" "millisPerServoReset example_config = 3000"
  "\<not> SERVO_RESET_REQUIRED no_reset_config" "millisPerServoReset no_reset_config = 3000"
  by (simp_all add: example_config_def no_reset_config_def millisPerServoReset_def)

lemma first_boot_fields:
  "currentPosition first_boot = Finite 0" "desiredPosition first_boot = Finite 0"
  "spinning first_boot = False" "startingPosition first_boot = Finite 0"
  "millisPerPercentOpen first_boot = 100" "milliesPerPercentClose first_boot = 100"
  by (simp_all add: first_boot_def example_config_def blank_flash_def setup_sketch_def
      initial_globals_def emit_def EEPROM_put_def EEPROM_commit_def Let_def)


lemma rebooted_fields:
  "currentPosition rebooted = Finite 50" "desiredPosition rebooted = Finite 0"
  "spinning rebooted = False" "startingPosition rebooted = Finite 0"
  "millisPerPercentOpen rebooted = 100" "milliesPerPercentClose rebooted = 100"
  by (simp_all add: rebooted_def example_config_def stored_flash_def setup_sketch_def
      initial_globals_def emit_def EEPROM_put_def EEPROM_commit_def Let_def)

lemma moving_to_50_fields:
  "spinning moving_to_50" "desiredPosition moving_to_50 = Finite 50"
  "startingPosition moving_to_50 = Finite 0" "currentPosition moving_to_50 = Finite 0"
  "previousMillis moving_to_50 = 7" "lastResetMillis moving_to_50 = 7"
  "interval moving_to_50 = 5000"
proof -
  have g: "d_ne (Finite 50) (desiredPosition first_boot) \<or> d_ne (Finite 50) (currentPosition first_boot)"
    by (simp add: first_boot_fields d_ne_def d_eq_def)
  note f = startSpinning_created [OF g, of example_config 7, folded moving_to_50_def]
  show "spinning moving_to_50" "desiredPosition moving_to_50 = Finite 50"
    "startingPosition moving_to_50 = Finite 0" "currentPosition moving_to_50 = Finite 0"
    "previousMillis moving_to_50 = 7" "lastResetMillis moving_to_50 = 7"
    using f by (simp_all add: first_boot_fields)
  show "interval moving_to_50 = 5000"
    unfolding f(1) by (simp add: first_boot_fields double_simps rd_simps)
qed

lemma moving_to_100_fields:
  "spinning moving_to_100" "desiredPosition moving_to_100 = Finite 100"
  "startingPosition moving_to_100 = Finite 0" "currentPosition moving_to_100 = Finite 0"
  "previousMillis moving_to_100 = 0" "lastResetMillis moving_to_100 = 0"
  "interval moving_to_100 = 10000"
  "millisPerPercentOpen moving_to_100 = 100" "milliesPerPercentClose moving_to_100 = 100"
proof -
  have g: "d_ne (Finite 100) (desiredPosition first_boot) \<or> d_ne (Finite 100) (currentPosition first_boot)"
    by (simp add: first_boot_fields d_ne_def d_eq_def)
  note f = startSpinning_created [OF g, of example_config 0, folded moving_to_100_def]
  show "spinning moving_to_100" "desiredPosition moving_to_100 = Finite 100"
    "startingPosition moving_to_100 = Finite 0" "currentPosition moving_to_100 = Finite 0"
    "previousMillis moving_to_100 = 0" "lastResetMillis moving_to_100 = 0"
    "millisPerPercentOpen moving_to_100 = 100" "milliesPerPercentClose moving_to_100 = 100"
    using f by (simp_all add: first_boot_fields)
  show "interval moving_to_100 = 10000"
    unfolding f(1) by (simp add: first_boot_fields double_simps rd_simps)
qed

lemma moving_to_100_estimate:
  "percentCompleted moving_to_100 2000 = Finite (3602879701896397 / 18014398509481984)"
  "estimate moving_to_100 2000 = Finite 20"
  "\<not> reached moving_to_100 2000"
  "estimate moving_to_100 4000 = Finite 40"
  "\<not> reached moving_to_100 4000"
  by (simp_all add: reached_def estimate_def percentCompleted_def moving_to_100_fields
      double_simps rd_simps)

lemma at_20_eq: "at_20 = moving_to_100\<lparr>currentPosition := Finite 20\<rparr>"
  unfolding at_20_def
  by (simp add: loop_continue moving_to_100_fields moving_to_100_estimate example_config_fields)

lemma at_20_fields:
  "spinning at_20" "desiredPosition at_20 = Finite 100"
  "startingPosition at_20 = Finite 0" "currentPosition at_20 = Finite 20"
  "millisPerPercentOpen at_20 = 100" "milliesPerPercentClose at_20 = 100"
  by (simp_all add: at_20_eq moving_to_100_fields)

lemma started_before_wrap_fields:
  "spinning started_before_wrap"
  "previousMillis started_before_wrap = 4294966296"
  "lastResetMillis started_before_wrap = 4294966296"
  "interval started_before_wrap = 5000"
  "desiredPosition started_before_wrap = Finite 50"
  "startingPosition started_before_wrap = Finite 0"
proof -
  have g: "d_ne (Finite 50) (desiredPosition first_boot) \<or> d_ne (Finite 50) (currentPosition first_boot)"
    by (simp add: first_boot_fields d_ne_def d_eq_def)
  note f = startSpinning_created [OF g, of example_config 4294966296, folded started_before_wrap_def]
  show "spinning started_before_wrap"
    "previousMillis started_before_wrap = 4294966296"
    "lastResetMillis started_before_wrap = 4294966296"
    "desiredPosition started_before_wrap = Finite 50"
    "startingPosition started_before_wrap = Finite 0"
    using f by (simp_all add: first_boot_fields)
  show "interval started_before_wrap = 5000"
    unfolding f(1) by (simp add: first_boot_fields double_simps rd_simps)
qed



lemma product_nonneg:
  assumes "d_mul (d_abs a) (Finite r) = Finite v" and "0 \<le> r"
  shows "0 \<le> v"
proof (cases a)
  case (Finite z)
  then have "d_mul (d_abs a) (Finite r) = round_double (\<bar>z\<bar> * r)"
    by (simp add: d_abs_def d_gt_def abs_if)
  moreover have "0 \<le> \<bar>z\<bar> * r" using assms(2) by simp
  from round_double_nonneg [OF this] assms(1) calculation show ?thesis by auto
next
  case PInf
  with assms(1) show ?thesis by (simp add: d_abs_def d_gt_def d_signed_inf_def split: if_splits)
next
  case MInf
  with assms(1) show ?thesis by (simp add: d_abs_def d_gt_def d_signed_inf_def split: if_splits)
next
  case NaN
  with assms(1) show ?thesis by (simp add: d_abs_def d_gt_def)
qed

lemma quotient_of_zero_interval:
  assumes "interval s = 0"
  shows "percentCompleted s now = (if now = previousMillis s then NaN else PInf)"
proof -
  define e where "e = unat (now - previousMillis s)"
  have e0: "(e = 0) = (now = previousMillis s)" by (simp add: e_def unat_eq_0)
  have "d_div (Finite (real e)) (Finite 0) = (if now = previousMillis s then NaN else PInf)"
    using e0 by (auto simp: d_signed_inf_def)
  then show ?thesis
    by (simp add: percentCompleted_def double_of_u32_def double_of_long_def assms e_def)
qed

lemma stopped_when_reached:
  assumes "session_or_done p q i t0 s"
    and "spinning s \<Longrightarrow> reached s now"
  shows "\<not> spinning (loop c now s)"
proof (cases "spinning s")
  case False
  then show ?thesis by (simp add: loop_idle)
next
  case True
  with assms(2) show ?thesis by (simp add: loop_reached stopSpinning_fields)
qed

lemma moving_to_50_stopped: "\<not> spinning (ticks example_config [1007, 5007] moving_to_50)"
proof -
  define s where "s = loop example_config 1007 moving_to_50"
  have "session_or_done (Finite 50) (Finite 0) 5000 7 moving_to_50"
    by (simp add: session_or_done_def moving_to_50_fields)
  then have inv: "session_or_done (Finite 50) (Finite 0) 5000 7 s"
    unfolding s_def by (rule session_or_done_loop)
  have "\<not> spinning (loop example_config 5007 s)"
  proof (rule stopped_when_reached [OF inv])
    assume "spinning s"
    with inv have f: "desiredPosition s = Finite 50" "startingPosition s = Finite 0"
      "interval s = 5000" "previousMillis s = 7"
      by (simp_all add: session_or_done_def)
    show "reached s 5007"
      by (simp add: reached_def estimate_def percentCompleted_def f double_simps rd_simps)
  qed
  then show ?thesis by (simp add: ticks_def s_def)
qed

section \<open>Convergence\<close>




section \<open>Sessions of interval zero\<close>

text \<open>
  Claim C2, as the code has it. \<open>startSpinning\<close> creates no session only when the new
  position equals both \<^verbatim>\<open>desiredPosition\<close> and \<^verbatim>\<open>currentPosition\<close>. Otherwise it creates
  one, whose interval is the cast to \<^verbatim>\<open>long\<close> of the rounded product
  \<open>|newPosition - currentPosition| * millisPerPercent\<close>. The interval is 0 when the new
  position equals \<^verbatim>\<open>currentPosition\<close>; when the product is a finite \<open>v\<close> below \<open>2^31\<close>
  the interval is \<open>\<lfloor>v\<rfloor>\<close>, which is 0 exactly when \<open>v < 1\<close>. For a session of interval 0
  the quotient that \<open>loop\<close> computes is NaN in the millisecond of the start and \<open>+inf\<close>
  afterwards.
\<close>

theorem zero_interval_sessions:
  "if d_ne (Finite x) (desiredPosition s) \<or> d_ne (Finite x) (currentPosition s)
   then spinning (startSpinning c t s (Finite x))
      \<and> (currentPosition s = Finite x \<longrightarrow> interval (startSpinning c t s (Finite x)) = 0)
      \<and> (\<forall>v. d_mul (d_abs (d_sub (Finite x) (currentPosition s)))
                (double_of_u32 (if d_gt (Finite x) (currentPosition s) then millisPerPercentOpen s
                                else milliesPerPercentClose s)) = Finite v
              \<and> v < 2147483648 \<longrightarrow>
              interval (startSpinning c t s (Finite x)) = \<lfloor>v\<rfloor>
              \<and> (interval (startSpinning c t s (Finite x)) = 0) = (v < 1))
      \<and> (interval (startSpinning c t s (Finite x)) = 0 \<longrightarrow>
           percentCompleted (startSpinning c t s (Finite x)) now = (if now = t then NaN else PInf))
   else startSpinning c t s (Finite x) =
          emit [DigitalWrite LED_BUILTIN LOW, DigitalWrite LED_BUILTIN HIGH] s"
proof (cases "d_ne (Finite x) (desiredPosition s) \<or> d_ne (Finite x) (currentPosition s)")
  case False
  then show ?thesis by (simp add: startSpinning_noop)
next
  case True
  define s' where "s' = startSpinning c t s (Finite x)"
  define rate where "rate = (if d_gt (Finite x) (currentPosition s) then millisPerPercentOpen s
                             else milliesPerPercentClose s)"
  note f = startSpinning_created [OF True, of c t, folded s'_def rate_def]
  have same: "interval s' = 0" if "currentPosition s = Finite x"
    unfolding f(1) using that
    by (simp add: d_sub_same d_abs_zero double_of_u32_def round_double_zero long_of_double_def
        trunc_real_def)
  have prod: "interval s' = \<lfloor>v\<rfloor> \<and> (interval s' = 0) = (v < 1)"
    if v: "d_mul (d_abs (d_sub (Finite x) (currentPosition s))) (double_of_u32 rate) = Finite v"
      and b: "v < 2147483648" for v
  proof -
    have v0: "0 \<le> v"
      using v unfolding double_of_u32_def by (rule product_nonneg) (rule of_nat_0_le_iff)
    have i: "interval s' = \<lfloor>v\<rfloor>"
      unfolding f(1) v by (rule long_of_double_in_range [OF v0 b])
    show ?thesis using v0 by (simp add: i floor_eq_iff)
  qed
  have pc: "percentCompleted s' now = (if now = t then NaN else PInf)" if "interval s' = 0"
    using quotient_of_zero_interval [OF that, of now] by (simp add: f(6))
  have main: "spinning s'
      \<and> (currentPosition s = Finite x \<longrightarrow> interval s' = 0)
      \<and> (\<forall>v. d_mul (d_abs (d_sub (Finite x) (currentPosition s))) (double_of_u32 rate) = Finite v
              \<and> v < 2147483648 \<longrightarrow> interval s' = \<lfloor>v\<rfloor> \<and> (interval s' = 0) = (v < 1))
      \<and> (interval s' = 0 \<longrightarrow> percentCompleted s' now = (if now = t then NaN else PInf))"
    using f(2) same prod pc by blast
  show ?thesis
    unfolding s'_def [symmetric] rate_def [symmetric] if_P [OF True] by (rule main)
qed

text \<open>
  After a restart at the stored position 50, where \<^verbatim>\<open>desiredPosition\<close> is 0, a request for
  50 creates a session of interval 0; its quotient is NaN in the same millisecond and
  \<open>+inf\<close> one millisecond later.
\<close>

theorem zero_interval_sessions_witness:
  "(d_ne (Finite 50) (desiredPosition rebooted) \<or> d_ne (Finite 50) (currentPosition rebooted))
   \<and> currentPosition rebooted = Finite 50
   \<and> spinning (startSpinning example_config 9 rebooted (Finite 50))
   \<and> interval (startSpinning example_config 9 rebooted (Finite 50)) = 0
   \<and> percentCompleted (startSpinning example_config 9 rebooted (Finite 50)) 9 = NaN
   \<and> percentCompleted (startSpinning example_config 9 rebooted (Finite 50)) 10 = PInf"
proof -
  have g: "d_ne (Finite 50) (desiredPosition rebooted) \<or> d_ne (Finite 50) (currentPosition rebooted)"
    by (simp add: rebooted_fields d_ne_def d_eq_def)
  show ?thesis
    using zero_interval_sessions [of 50 rebooted example_config 9 9]
      zero_interval_sessions [of 50 rebooted example_config 9 10] g
    by (simp add: rebooted_fields)
qed

text \<open>
  The claim as stated fails: a move from 0 to 100 that is sent back to 0 before the first
  tick becomes a session whose target equals its starting position, with the interval 0
  and the quotient \<open>0 / 0\<close>.
\<close>

theorem session_with_zero_interval:
  "spinning moving_to_100 \<and> currentPosition moving_to_100 = Finite 0
   \<and> spinning (startSpinning example_config 5 moving_to_100 (Finite 0))
   \<and> d_eq (desiredPosition (startSpinning example_config 5 moving_to_100 (Finite 0)))
          (startingPosition (startSpinning example_config 5 moving_to_100 (Finite 0)))
   \<and> interval (startSpinning example_config 5 moving_to_100 (Finite 0)) = 0
   \<and> percentCompleted (startSpinning example_config 5 moving_to_100 (Finite 0)) 5 = NaN"
proof -
  have g: "d_ne (Finite 0) (desiredPosition moving_to_100)
      \<or> d_ne (Finite 0) (currentPosition moving_to_100)"
    by (simp add: moving_to_100_fields d_ne_def d_eq_def)
  note f = startSpinning_created [OF g, of example_config 5]
  have i: "interval (startSpinning example_config 5 moving_to_100 (Finite 0)) = 0"
    unfolding f(1) by (simp add: moving_to_100_fields double_simps rd_simps)
  show ?thesis
    using f(2) quotient_of_zero_interval [OF i, of 5]
    by (simp add: f(3,4,6) i moving_to_100_fields d_eq_def)
qed

section \<open>Idempotence\<close>

text \<open>
  Claim C3. After a restart with the position 50 in the EEPROM, the controller is idle at
  \<^verbatim>\<open>currentPosition = 50\<close>, and \<open>setup\<close> has left \<^verbatim>\<open>desiredPosition\<close> at its initial 0.
  A request for 50 then passes the guard of \<open>startSpinning\<close>: a session of interval 0 is
  created, and the servo is attached and written to.
\<close>

theorem move_to_stored_position_after_reboot:
  "\<not> spinning rebooted \<and> d_eq (Finite 50) (currentPosition rebooted)
   \<and> spinning (startSpinning example_config 9 rebooted (Finite 50))
   \<and> interval (startSpinning example_config 9 rebooted (Finite 50)) = 0
   \<and> trace (startSpinning example_config 9 rebooted (Finite 50)) = trace rebooted @
       [DigitalWrite LED_BUILTIN LOW,
        SerialText ''current position: '', SerialDouble (Finite 50),
        SerialText ''desired position: '', SerialDouble (Finite 50),
        SerialText ''calculated interval: '', SerialInt 0,
        ServoAttach 2, ServoWrite 180,
        SerialText ''calculated direction: '', SerialInt (- 1),
        DigitalWrite LED_BUILTIN HIGH]"
  by (simp add: startSpinning_def emit_def Let_def rebooted_fields double_simps rd_simps
      servoPin_def)

section \<open>Retargeting\<close>

text \<open>
  Claim C4, as the code has it. On a spinning controller, after a call of \<open>loop\<close> that does
  not stop the session, \<^verbatim>\<open>currentPosition\<close> is the estimate of that call, and a
  \<open>startSpinning\<close> that creates a session takes it as the new \<^verbatim>\<open>startingPosition\<close>,
  whatever the starting position and the target of the session before. The new interval is
  the cast to \<^verbatim>\<open>long\<close> of the rounded product \<open>|newTarget - estimate| * millisPerPercent\<close>:
  the product truncated to a whole number of milliseconds, when it is below \<open>2^31\<close>.
\<close>

theorem retarget_uses_live_estimate:
  assumes "spinning s" and "\<not> reached s t"
    and "d_ne p (desiredPosition s) \<or> d_ne p (estimate s t)"
  shows "currentPosition (loop c t s) = estimate s t
    \<and> startingPosition (startSpinning c t' (loop c t s) p) = estimate s t
    \<and> desiredPosition (startSpinning c t' (loop c t s) p) = p
    \<and> previousMillis (startSpinning c t' (loop c t s) p) = t'
    \<and> interval (startSpinning c t' (loop c t s) p) =
        long_of_double c (d_mul (d_abs (d_sub p (estimate s t)))
          (double_of_u32 (if d_gt p (estimate s t) then millisPerPercentOpen s
                          else milliesPerPercentClose s)))
    \<and> (\<forall>v. d_mul (d_abs (d_sub p (estimate s t)))
              (double_of_u32 (if d_gt p (estimate s t) then millisPerPercentOpen s
                              else milliesPerPercentClose s)) = Finite v
            \<and> v < 2147483648 \<longrightarrow>
            interval (startSpinning c t' (loop c t s) p) = \<lfloor>v\<rfloor>)"
proof -
  have l: "currentPosition (loop c t s) = estimate s t"
    "desiredPosition (loop c t s) = desiredPosition s"
    "millisPerPercentOpen (loop c t s) = millisPerPercentOpen s"
    "milliesPerPercentClose (loop c t s) = milliesPerPercentClose s"
    using assms(1,2) by (simp_all add: loop_continue resetServo_def emit_def)
  have g: "d_ne p (desiredPosition (loop c t s)) \<or> d_ne p (currentPosition (loop c t s))"
    using assms(3) by (simp add: l)
  note f = startSpinning_created [OF g, of c t', unfolded l]
  have "interval (startSpinning c t' (loop c t s) p) = \<lfloor>v\<rfloor>"
    if v: "d_mul (d_abs (d_sub p (estimate s t)))
              (double_of_u32 (if d_gt p (estimate s t) then millisPerPercentOpen s
                              else milliesPerPercentClose s)) = Finite v"
      and b: "v < 2147483648" for v
  proof -
    have v0: "0 \<le> v"
      using v unfolding double_of_u32_def by (rule product_nonneg) (rule of_nat_0_le_iff)
    show ?thesis unfolding f(1) v by (rule long_of_double_in_range [OF v0 b])
  qed
  then show ?thesis using f(1,3,4,6) l(1) by simp
qed

text \<open>
  The example of the specification: a move from 0 to 100 at 100 ms per percent, sent to 30
  after the tick at 2000 ms, starts from 20 with an interval of 1000 ms.
\<close>

theorem retarget_uses_live_estimate_witness:
  "spinning moving_to_100 \<and> \<not> reached moving_to_100 2000
   \<and> (d_ne (Finite 30) (desiredPosition moving_to_100)
       \<or> d_ne (Finite 30) (estimate moving_to_100 2000))
   \<and> estimate moving_to_100 2000 = Finite 20
   \<and> startingPosition (startSpinning example_config 2000 (loop example_config 2000 moving_to_100) (Finite 30))
        = Finite 20
   \<and> desiredPosition (startSpinning example_config 2000 (loop example_config 2000 moving_to_100) (Finite 30))
        = Finite 30
   \<and> interval (startSpinning example_config 2000 (loop example_config 2000 moving_to_100) (Finite 30))
        = 1000"
proof -
  have g: "d_ne (Finite 30) (desiredPosition moving_to_100)
       \<or> d_ne (Finite 30) (estimate moving_to_100 2000)"
    by (simp add: moving_to_100_fields d_ne_def d_eq_def)
  show ?thesis
    using retarget_uses_live_estimate [OF moving_to_100_fields(1) moving_to_100_estimate(3) g,
        of example_config 2000] g
    by (simp add: moving_to_100_fields moving_to_100_estimate double_simps rd_simps)
qed

text \<open>
  The claim as stated fails: the interval is a whole number of milliseconds. From the
  estimate 20 to the target 30.03125 at 100 ms per percent it is 1003 ms, and the product
  is 1003.125.
\<close>

theorem retarget_interval_is_truncated:
  "spinning at_20 \<and> currentPosition at_20 = Finite 20
   \<and> millisPerPercentOpen at_20 = 100
   \<and> interval (startSpinning example_config 2000 at_20 (Finite (961 / 32))) = 1003
   \<and> real_of_int (interval (startSpinning example_config 2000 at_20 (Finite (961 / 32))))
        \<noteq> \<bar>961 / 32 - 20\<bar> * 100"
proof -
  have g: "d_ne (Finite (961 / 32)) (desiredPosition at_20)
      \<or> d_ne (Finite (961 / 32)) (currentPosition at_20)"
    by (simp add: at_20_fields d_ne_def d_eq_def)
  note f = startSpinning_created [OF g, of example_config 2000]
  have i: "interval (startSpinning example_config 2000 at_20 (Finite (961 / 32))) = 1003"
    unfolding f(1) by (simp add: at_20_fields double_simps rd_simps)
  show ?thesis by (simp add: i at_20_fields)
qed

section \<open>Direction and rate\<close>


section \<open>Completion\<close>

text \<open>
  Claim C6. In an iteration of \<open>loop\<close> on a spinning controller, the spin is stopped
  (\<open>stopSpinning\<close> is called on the state with the new estimate) if and only if the
  estimate equals \<^verbatim>\<open>desiredPosition\<close>, or the elapsed fraction is greater than 1, or
  the estimate is below 0 or above 100. Otherwise the session goes on unchanged, with
  \<^verbatim>\<open>currentPosition\<close> at the estimate.
\<close>

theorem completion_test:
  assumes "spinning s"
  shows "(\<not> spinning (loop c now s)) =
           (d_eq (estimate s now) (desiredPosition s)
            \<or> d_gt (percentCompleted s now) (Finite 1)
            \<or> d_lt (estimate s now) (Finite 0)
            \<or> d_gt (estimate s now) (Finite 100))
    \<and> (loop c now s = stopSpinning c (s\<lparr>currentPosition := estimate s now\<rparr>)) =
           (d_eq (estimate s now) (desiredPosition s)
            \<or> d_gt (percentCompleted s now) (Finite 1)
            \<or> d_lt (estimate s now) (Finite 0)
            \<or> d_gt (estimate s now) (Finite 100))
    \<and> (if spinning (loop c now s)
        then desiredPosition (loop c now s) = desiredPosition s
           \<and> startingPosition (loop c now s) = startingPosition s
           \<and> previousMillis (loop c now s) = previousMillis s
           \<and> interval (loop c now s) = interval s
           \<and> currentPosition (loop c now s) = estimate s now
        else currentPosition (loop c now s) = desiredPosition s)"
proof (cases "reached s now")
  case True
  with assms show ?thesis
    by (simp add: loop_reached stopSpinning_fields) (simp add: reached_def)
next
  case False
  have "spinning (loop c now s)"
    using assms False by (simp add: loop_continue resetServo_fields)
  then have "loop c now s \<noteq> stopSpinning c (s\<lparr>currentPosition := estimate s now\<rparr>)"
    using stopSpinning_fields(1) [of c "s\<lparr>currentPosition := estimate s now\<rparr>"] by auto
  with assms False show ?thesis
    by (simp add: loop_continue resetServo_fields) (simp add: reached_def)
qed

text \<open>
  Two seconds into a move from 0 to 100 at 100 ms per percent none of the four tests holds,
  and the controller spins on at the estimate 20.
\<close>

theorem completion_test_witness:
  "spinning moving_to_100
   \<and> spinning (loop example_config 2000 moving_to_100)
   \<and> \<not> d_eq (estimate moving_to_100 2000) (desiredPosition moving_to_100)
   \<and> \<not> d_gt (percentCompleted moving_to_100 2000) (Finite 1)
   \<and> \<not> d_lt (estimate moving_to_100 2000) (Finite 0)
   \<and> \<not> d_gt (estimate moving_to_100 2000) (Finite 100)
   \<and> currentPosition (loop example_config 2000 moving_to_100) = Finite 20"
  using completion_test [OF moving_to_100_fields(1), of example_config 2000]
    moving_to_100_estimate(3)
  by (simp add: moving_to_100_fields moving_to_100_estimate reached_def)

section \<open>Persistence\<close>

text \<open>
  Claim C7. From the call of \<open>startSpinning\<close> that leaves the controller spinning,
  through any number of iterations of \<open>loop\<close>: as long as the controller spins, no
  \<^verbatim>\<open>EEPROM.put\<close> and no \<^verbatim>\<open>EEPROM.commit\<close> has been called and the flash is unchanged;
  once it has stopped, exactly one \<^verbatim>\<open>put\<close> of the final position (the target of the
  session) and one \<^verbatim>\<open>commit\<close> have been called, and the flash holds that position.
\<close>

theorem persistence_once_per_session:
  assumes "startSpinning c t0 s p = s1" and "spinning s1"
  shows "take (length (trace s)) (trace (ticks c ts s1)) = trace s
    \<and> (if spinning (ticks c ts s1)
       then filter is_eeprom_event (drop (length (trace s)) (trace (ticks c ts s1))) = []
          \<and> eeprom_flash (ticks c ts s1) = eeprom_flash s
       else filter is_eeprom_event (drop (length (trace s)) (trace (ticks c ts s1))) =
              [EepromPut (PutCurrentPosition (desiredPosition s1)), EepromCommit]
          \<and> ee_currentPosition (eeprom_flash (ticks c ts s1)) = desiredPosition s1
          \<and> currentPosition (ticks c ts s1) = desiredPosition s1)"
proof -
  have "persisted_once s (desiredPosition s1) s1"
    using startSpinning_trace [where s = s and c = c and t = t0 and p = p] assms by (simp add: persisted_once_def)
  then have "persisted_once s (desiredPosition s1) (ticks c ts s1)"
    by (rule persisted_once_ticks)
  then show ?thesis
    unfolding persisted_once_def extends_def new_events_def by (simp split: if_splits)
qed

text \<open>
  The move from 0 to 50 with ticks 1000 ms and 5000 ms after its start: the second tick
  stops it, with one \<^verbatim>\<open>put\<close> of 50 and one \<^verbatim>\<open>commit\<close>.
\<close>

theorem persistence_once_per_session_witness:
  "startSpinning example_config 7 first_boot (Finite 50) = moving_to_50 \<and> spinning moving_to_50
   \<and> \<not> spinning (ticks example_config [1007, 5007] moving_to_50)
   \<and> filter is_eeprom_event
        (drop (length (trace first_boot)) (trace (ticks example_config [1007, 5007] moving_to_50))) =
        [EepromPut (PutCurrentPosition (Finite 50)), EepromCommit]
   \<and> ee_currentPosition (eeprom_flash (ticks example_config [1007, 5007] moving_to_50)) = Finite 50"
  using persistence_once_per_session [OF moving_to_50_def [symmetric] moving_to_50_fields(1),
      where ts = "[1007, 5007]"] moving_to_50_stopped
  by (simp add: moving_to_50_fields moving_to_50_def [symmetric])

section \<open>Range of the positions\<close>

text \<open>
  Claim C8, as the code has it. From a state whose three positions lie in \<open>[0, 100]\<close>,
  after every sequence of requests and ticks whose targets all lie in \<open>[0, 100]\<close>,
  \<^verbatim>\<open>desiredPosition\<close> lies in \<open>[0, 100]\<close>, \<^verbatim>\<open>startingPosition\<close> lies in \<open>[0, 100]\<close> or is
  NaN, and \<^verbatim>\<open>currentPosition\<close> lies in \<open>[0, 100]\<close> or is NaN on a spinning controller.
\<close>

theorem positions_stay_in_range:
  assumes "in_percent_range (currentPosition s)" and "in_percent_range (desiredPosition s)"
    and "in_percent_range (startingPosition s)"
    and "list_all valid_target ops"
  shows "in_percent_range (desiredPosition (run c s ops))
    \<and> (in_percent_range (startingPosition (run c s ops)) \<or> startingPosition (run c s ops) = NaN)
    \<and> (in_percent_range (currentPosition (run c s ops))
       \<or> spinning (run c s ops) \<and> currentPosition (run c s ops) = NaN)"
proof -
  have "positions_in_range s" using assms(1-3) by (simp add: positions_in_range_def)
  from positions_in_range_run [OF this assms(4), where c = c] show ?thesis
    by (simp add: positions_in_range_def)
qed

text \<open>
  A move from 0 to 100, a tick at 2000 ms and a request for 30: the three positions of the
  resulting state are as the theorem says.
\<close>

theorem positions_stay_in_range_witness:
  "in_percent_range (currentPosition first_boot) \<and> in_percent_range (desiredPosition first_boot)
   \<and> in_percent_range (startingPosition first_boot)
   \<and> list_all valid_target [Move 0 (Finite 100), Tick 2000, Move 2000 (Finite 30)]
   \<and> run example_config first_boot [Move 0 (Finite 100), Tick 2000, Move 2000 (Finite 30)] =
        startSpinning example_config 2000 at_20 (Finite 30)
   \<and> in_percent_range (desiredPosition (startSpinning example_config 2000 at_20 (Finite 30)))
   \<and> (in_percent_range (startingPosition (startSpinning example_config 2000 at_20 (Finite 30)))
       \<or> startingPosition (startSpinning example_config 2000 at_20 (Finite 30)) = NaN)
   \<and> (in_percent_range (currentPosition (startSpinning example_config 2000 at_20 (Finite 30)))
       \<or> spinning (startSpinning example_config 2000 at_20 (Finite 30))
         \<and> currentPosition (startSpinning example_config 2000 at_20 (Finite 30)) = NaN)"
proof -
  have h1: "in_percent_range (currentPosition first_boot)"
    and h2: "in_percent_range (desiredPosition first_boot)"
    and h3: "in_percent_range (startingPosition first_boot)"
    by (simp_all add: first_boot_fields)
  have h4: "list_all valid_target [Move 0 (Finite 100), Tick 2000, Move 2000 (Finite 30)]" by simp
  have r: "run example_config first_boot [Move 0 (Finite 100), Tick 2000, Move 2000 (Finite 30)] =
        startSpinning example_config 2000 at_20 (Finite 30)"
    by (simp add: run_def at_20_def moving_to_100_def)
  show ?thesis
    using positions_stay_in_range [OF h1 h2 h3 h4, where c = example_config] h1 h2 h3 h4
    unfolding r by (simp add: r)
qed

text \<open>
  The claim as stated fails in two ways. \<open>startSpinning\<close> does not check its argument: a
  request for 150 sets \<^verbatim>\<open>desiredPosition\<close> to 150 at once, and the tick that stops the
  session leaves \<^verbatim>\<open>currentPosition\<close> at 150. And with targets in the range only: after a
  restart at the stored position 50, a request for 50 creates a session of interval 0, the
  tick in the same millisecond computes \<open>0 / 0\<close> and the estimate NaN, and a request for 60
  copies NaN into \<^verbatim>\<open>startingPosition\<close>.
\<close>

theorem positions_leave_range:
  "in_percent_range (currentPosition first_boot) \<and> in_percent_range (desiredPosition first_boot)
   \<and> in_percent_range (startingPosition first_boot)
   \<and> desiredPosition (startSpinning example_config 7 first_boot (Finite 150)) = Finite 150
   \<and> \<not> in_percent_range (desiredPosition (startSpinning example_config 7 first_boot (Finite 150)))
   \<and> \<not> spinning (loop example_config 15008 (startSpinning example_config 7 first_boot (Finite 150)))
   \<and> currentPosition (loop example_config 15008 (startSpinning example_config 7 first_boot (Finite 150)))
        = Finite 150
   \<and> in_percent_range (currentPosition rebooted) \<and> in_percent_range (desiredPosition rebooted)
   \<and> in_percent_range (startingPosition rebooted)
   \<and> list_all valid_target [Move 9 (Finite 50), Tick 9, Move 9 (Finite 60)]
   \<and> spinning (run example_config rebooted [Move 9 (Finite 50), Tick 9, Move 9 (Finite 60)])
   \<and> startingPosition (run example_config rebooted [Move 9 (Finite 50), Tick 9, Move 9 (Finite 60)])
        = NaN
   \<and> currentPosition (run example_config rebooted [Move 9 (Finite 50), Tick 9, Move 9 (Finite 60)])
        = NaN"
proof -
  define s1 where "s1 = startSpinning example_config 7 first_boot (Finite 150)"
  have g: "d_ne (Finite 150) (desiredPosition first_boot) \<or> d_ne (Finite 150) (currentPosition first_boot)"
    by (simp add: first_boot_fields d_ne_def d_eq_def)
  note f = startSpinning_created [OF g, of example_config 7, folded s1_def]
  have i: "interval s1 = 15000"
    unfolding f(1) by (simp add: first_boot_fields double_simps rd_simps)
  have inv: "session_or_done (Finite 150) (Finite 0) 15000 7 s1"
    using f(2) by (simp add: session_or_done_def f(3,4,6) i first_boot_fields)
  have a: "\<not> spinning (loop example_config 15008 s1)"
    "currentPosition (loop example_config 15008 s1) = Finite 150"
    by (rule stopped_when_overdue [OF inv]; simp)+
  define s2 where "s2 = startSpinning example_config 9 rebooted (Finite 50)"
  have g2: "d_ne (Finite 50) (desiredPosition rebooted) \<or> d_ne (Finite 50) (currentPosition rebooted)"
    by (simp add: rebooted_fields d_ne_def d_eq_def)
  note f2 = startSpinning_created [OF g2, of example_config 9, folded s2_def]
  have i2: "interval s2 = 0"
    unfolding f2(1) by (simp add: rebooted_fields double_simps rd_simps)
  have pc: "percentCompleted s2 9 = NaN"
    using quotient_of_zero_interval [OF i2, of 9] by (simp add: f2(6))
  have e: "estimate s2 9 = NaN" by (simp add: estimate_def pc)
  have nr: "\<not> reached s2 9" by (simp add: reached_def e pc d_eq_def d_gt_def)
  have l: "loop example_config 9 s2 = s2\<lparr>currentPosition := NaN\<rparr>"
    using f2(2) nr by (simp add: loop_continue e f2(7) example_config_fields)
  have g3: "d_ne (Finite 60) (desiredPosition (loop example_config 9 s2))
      \<or> d_ne (Finite 60) (currentPosition (loop example_config 9 s2))"
    by (simp add: l d_ne_def d_eq_def)
  note f3 = startSpinning_created [OF g3, of example_config 9]
  have r: "run example_config rebooted [Move 9 (Finite 50), Tick 9, Move 9 (Finite 60)] =
      startSpinning example_config 9 (loop example_config 9 s2) (Finite 60)"
    by (simp add: run_def s2_def)
  have b: "spinning (run example_config rebooted [Move 9 (Finite 50), Tick 9, Move 9 (Finite 60)])"
    "startingPosition (run example_config rebooted [Move 9 (Finite 50), Tick 9, Move 9 (Finite 60)]) = NaN"
    "currentPosition (run example_config rebooted [Move 9 (Finite 50), Tick 9, Move 9 (Finite 60)]) = NaN"
    using f3(2,4,5) unfolding r by (simp_all add: l)
  show ?thesis
    using a b f(3) unfolding s1_def [symmetric]
    by (simp add: first_boot_fields rebooted_fields)
qed

section \<open>Servo reset\<close>




section \<open>Wrap-around of the clock\<close>

text \<open>
  Claim C10. Let \<open>T0\<close>, \<open>TR\<close> and \<open>T\<close> be the times, in milliseconds since power-up
  and not reduced modulo \<open>2^32\<close>, of the start of the session, of the last reset and of
  a call of \<open>loop\<close>, each of the first two less than \<open>2^32\<close> ms before the third. On the
  32-bit values of \<^verbatim>\<open>millis()\<close>, \<open>loop\<close> returns the state that \<open>tick_unwrapped\<close>
  computes from the true differences \<open>T - T0\<close> and \<open>T - TR\<close>: the same estimate of the
  position, the same decision to stop and the same decision to reset the servo.
\<close>

theorem loop_across_wraparound:
  assumes "previousMillis s = of_nat T0" and "T0 \<le> T" and "T < T0 + 2 ^ 32"
    and "lastResetMillis s = of_nat TR" and "TR \<le> T" and "T < TR + 2 ^ 32"
  shows "loop c (of_nat T) s = tick_unwrapped c (T - T0) (T - TR) (of_nat T) s"
proof (cases "spinning s")
  case False
  then show ?thesis by (simp add: loop_idle tick_unwrapped_def)
next
  case True
  have pc: "percentCompleted s (of_nat T) =
      d_div (Finite (real (T - T0))) (Finite (real_of_int (interval s)))"
    using elapsed_across_wraparound [OF assms(2,3)]
    by (simp add: percentCompleted_def double_of_u32_def double_of_long_def assms(1))
  have es: "estimate s (of_nat T) =
      d_add (startingPosition s)
        (d_mul (d_div (Finite (real (T - T0))) (Finite (real_of_int (interval s))))
               (d_sub (desiredPosition s) (startingPosition s)))"
    unfolding estimate_def pc by (rule d_add_commute)
  have due: "(millisPerServoReset c \<le> of_nat T - lastResetMillis s) =
      (unat (millisPerServoReset c) \<le> T - TR)"
    using elapsed_across_wraparound [OF assms(5,6)] by (simp add: assms(4) word_le_nat_alt)
  show ?thesis
  proof (cases "reached s (of_nat T)")
    case r: True
    then have "d_eq (estimate s (of_nat T)) (desiredPosition s)
        \<or> d_gt (percentCompleted s (of_nat T)) (Finite 1)
        \<or> d_lt (estimate s (of_nat T)) (Finite 0) \<or> d_gt (estimate s (of_nat T)) (Finite 100)"
      by (simp add: reached_def)
    then show ?thesis
      unfolding loop_reached [OF True r] tick_unwrapped_def Let_def
      using True by (simp add: es pc)
  next
    case r: False
    then have "\<not> (d_eq (estimate s (of_nat T)) (desiredPosition s)
        \<or> d_gt (percentCompleted s (of_nat T)) (Finite 1)
        \<or> d_lt (estimate s (of_nat T)) (Finite 0) \<or> d_gt (estimate s (of_nat T)) (Finite 100))"
      by (simp add: reached_def)
    then show ?thesis
      unfolding loop_continue [OF True r] tick_unwrapped_def Let_def due
      using True by (simp add: es pc)
  qed
qed

text \<open>
  A session from 0 to 50 started 1000 ms before the counter wraps: 5000 ms later
  \<^verbatim>\<open>millis()\<close> returns 4000, the elapsed time is 5000 ms, and the tick stops the session
  at 50.
\<close>

theorem loop_across_wraparound_witness:
  "previousMillis started_before_wrap = of_nat 4294966296
   \<and> (4294966296 :: nat) \<le> 4294971296 \<and> (4294971296 :: nat) < 4294966296 + 2 ^ 32
   \<and> lastResetMillis started_before_wrap = of_nat 4294966296
   \<and> (of_nat 4294971296 :: u32) = 4000
   \<and> loop example_config 4000 started_before_wrap =
       tick_unwrapped example_config 5000 5000 4000 started_before_wrap
   \<and> \<not> spinning (loop example_config 4000 started_before_wrap)
   \<and> currentPosition (loop example_config 4000 started_before_wrap) = Finite 50"
proof -
  have h1: "previousMillis started_before_wrap = of_nat 4294966296"
    and h4: "lastResetMillis started_before_wrap = of_nat 4294966296"
    by (simp_all add: started_before_wrap_fields)
  have h2: "(4294966296 :: nat) \<le> 4294971296" and h3: "(4294971296 :: nat) < 4294966296 + 2 ^ 32"
    by simp_all
  have w: "(of_nat 4294971296 :: u32) = 4000" by simp
  have d: "(4294971296 :: nat) - 4294966296 = 5000" by simp
  have t: "tick_unwrapped example_config 5000 5000 4000 started_before_wrap =
      stopSpinning example_config (started_before_wrap\<lparr>currentPosition := Finite 50\<rparr>)"
    by (simp add: tick_unwrapped_def Let_def started_before_wrap_fields double_simps rd_simps)
  show ?thesis
    using loop_across_wraparound [OF h1 h2 h3 h4 h2 h3, where c = example_config, unfolded w d]
      h1 h4 w
    by (simp add: t stopSpinning_fields started_before_wrap_fields)
qed

end
